theory Spec2Isabelle
  imports Main "HOL-Library.While_Combinator" "HOL-Library.Sublist"
begin

section \<open>Data model\<close>

text \<open>
  The generator of \<^verbatim>\<open>src/Dungeon.ts\<close> works on JavaScript objects that are shared by
  reference: the tile matrix \<^verbatim>\<open>this.tiles\<close> holds references to \<^verbatim>\<open>Tile\<close> objects,
  and every tile holds references to its neighbours. The embedding keeps that aliasing:
  a tile object lives in a store (\<open>heap\<close>) under a reference, the matrix and the
  neighbour links hold references. JavaScript numbers are modelled as unbounded
  integers (the code only uses them as integers).

  Field names carry a prefix where the bare source name (\<^verbatim>\<open>x\<close>, \<^verbatim>\<open>type\<close>, ...) would
  capture variables of the logic: \<open>tile_type\<close> is \<^verbatim>\<open>Tile.state.type\<close>, \<open>nb_n\<close> is
  \<^verbatim>\<open>Neighbors.n\<close>, and so on.
\<close>

datatype TileType = Door | Floor | Shaft | Stairs | Wall

datatype RegionType = RoomRegion | CorridorRegion

type_synonym ref = int

record Neighbors =
  nb_n :: "ref option"
  nb_ne :: "ref option"
  nb_e :: "ref option"
  nb_se :: "ref option"
  nb_s :: "ref option"
  nb_sw :: "ref option"
  nb_w :: "ref option"
  nb_nw :: "ref option"

record Tile =
  tile_type :: TileType
  tile_neighbors :: Neighbors
  tile_x :: int
  tile_y :: int
  tile_region :: int
  tile_regionType :: "RegionType option"

record DungeonOptions =
  doorChance :: int
  maxDoors :: int
  roomTries :: int
  roomExtraSize :: int
  windingPercent :: int
  multiplier :: "int option"
  removeDeadEndsOpt :: bool

record StageOptions =
  width :: int
  height :: int
  seed :: "string option"

text \<open>
  The pseudo-random generator is the external library Chance. It is modelled as a
  stream of raw numbers together with the number of draws made so far; which stream
  belongs to which seed is a parameter (\<open>chance\<close> below).
\<close>

record Rng =
  raw :: "nat \<Rightarrow> nat"
  drawn :: nat

text \<open>
  Modelled from the spec: the classes \<^verbatim>\<open>Room\<close> and \<^verbatim>\<open>Region\<close> are imported by
  \<^verbatim>\<open>Dungeon.ts\<close> but their files are not part of the sources. A room is the rectangle
  \<open>(x, y, width, height)\<close>; a region is an id with its kind.
\<close>

record Room =
  room_x :: int
  room_y :: int
  room_width :: int
  room_height :: int

record Region =
  region_id :: int
  region_type :: "RegionType option"

record Point =
  point_x :: int
  point_y :: int

type_synonym PointArray = "int \<times> int"

text \<open>
  The class \<^verbatim>\<open>Dungeon\<close>. Besides the fields of the source (\<open>options\<close>, \<open>stage\<close>,
  \<open>rng\<close>, \<open>rooms\<close>, \<open>region\<close>, \<open>tiles\<close>, \<open>seed\<close>; a field the constructor leaves
  \<^verbatim>\<open>undefined\<close> is \<open>None\<close>) the record holds the store of the tile objects the
  instance has created (\<open>heap\<close>, \<open>nextRef\<close>), the counter that numbers regions
  (\<open>nextRegionId\<close>, see \<open>startRegion\<close>) and the number of
  \<^verbatim>\<open>Failed to add doors\<close> messages written to the error log (\<open>doorFailures\<close>).
\<close>

record Dungeon =
  options :: DungeonOptions
  stage :: "StageOptions option"
  rng :: "Rng option"
  rooms :: "Room list"
  region :: "Region option"
  tiles :: "ref list list"
  dungeonSeed :: "string option"
  heap :: "ref \<Rightarrow> Tile"
  nextRef :: ref
  nextRegionId :: int
  doorFailures :: nat

text \<open>
  What the generator takes from outside the repository: the slug
  \<^verbatim>\<open>$chance.generateSlug()\<close> would produce in this run, and the raw stream
  \<^verbatim>\<open>new Chance(seed)\<close> yields for a seed.
\<close>

record Env =
  generateSlug :: string
  chance :: "string \<Rightarrow> nat \<Rightarrow> nat"

text \<open>
  Every \<^verbatim>\<open>throw\<close> of the source and every runtime error a statement can raise is a
  value: the two range errors of \<open>validate\<close>, the range error of \<open>getTile\<close>, Chance's
  range error for \<open>min > max\<close>, a property read on \<^verbatim>\<open>undefined\<close>, and arithmetic on an
  undefined multiplier.
\<close>

datatype Error =
    InvalidWidth int
  | InvalidHeight int
  | TileUnreachable int int
  | ChanceRange
  | TypeError
  | NotANumber

definition bindE :: "Error + 'a \<Rightarrow> ('a \<Rightarrow> Error + 'b) \<Rightarrow> Error + 'b" where
  "bindE m f = (case m of Inl e \<Rightarrow> Inl e | Inr v \<Rightarrow> f v)"

text \<open>A \<^verbatim>\<open>for\<close> loop over a list whose body may throw.\<close>

fun foldE :: "('a \<Rightarrow> 's \<Rightarrow> Error + 's) \<Rightarrow> 'a list \<Rightarrow> 's \<Rightarrow> Error + 's" where
  "foldE f [] s = Inr s"
| "foldE f (a # as) s = bindE (f a s) (foldE f as)"

definition isOk :: "Error + 'a \<Rightarrow> bool" where
  "isOk r = (case r of Inl _ \<Rightarrow> False | Inr _ \<Rightarrow> True)"

section \<open>Constructor and defaults\<close>

definition defaultDungeonOptions :: DungeonOptions where
  "defaultDungeonOptions =
     \<lparr>doorChance = 50, maxDoors = 5, roomTries = 50, roomExtraSize = 0,
      windingPercent = 50, multiplier = None, removeDeadEndsOpt = False\<rparr>"

definition defaultStageOptions :: StageOptions where
  "defaultStageOptions = \<lparr>width = 5, height = 5, seed = None\<rparr>"

text \<open>
  \<^verbatim>\<open>this.options.multiplier > 0 ? parseInt(String(this.options.multiplier || 1)) || 1 : 1\<close>
  on an integer or absent multiplier.
\<close>

definition coerceMultiplier :: "int option \<Rightarrow> int" where
  "coerceMultiplier m = (case m of None \<Rightarrow> 1 | Some k \<Rightarrow> if k > 0 then k else 1)"

definition noNeighbors :: Neighbors where
  "noNeighbors = \<lparr>nb_n = None, nb_ne = None, nb_e = None, nb_se = None,
                   nb_s = None, nb_sw = None, nb_w = None, nb_nw = None\<rparr>"

text \<open>\<^verbatim>\<open>new Tile(type, x, y)\<close>: region \<open>-1\<close>, no region type, no neighbours.\<close>

definition newTile :: "TileType \<Rightarrow> int \<Rightarrow> int \<Rightarrow> Tile" where
  "newTile ty x y =
     \<lparr>tile_type = ty, tile_neighbors = noNeighbors, tile_x = x, tile_y = y,
      tile_region = -1, tile_regionType = None\<rparr>"

text \<open>\<^verbatim>\<open>new Dungeon(options)\<close>, the options already merged over the defaults.\<close>

definition newDungeon :: "DungeonOptions \<Rightarrow> Dungeon" where
  "newDungeon opts =
     \<lparr>options = opts\<lparr>multiplier := Some (coerceMultiplier (multiplier opts))\<rparr>,
      stage = None, rng = None, rooms = [], region = None, tiles = [],
      dungeonSeed = None, heap = (\<lambda>_. newTile Wall 0 0), nextRef = 0,
      nextRegionId = 0, doorFailures = 0\<rparr>"

section \<open>Random draws\<close>

text \<open>
  \<^verbatim>\<open>rng.integer({min, max})\<close>: Chance raises a range error when \<open>min > max\<close> and
  otherwise returns an integer of \<open>[min, max]\<close>; the model takes the next raw number
  of the stream into that range.
\<close>

definition integer :: "Rng \<Rightarrow> int \<Rightarrow> int \<Rightarrow> Error + (int \<times> Rng)" where
  "integer g lo hi =
     (if hi < lo then Inl ChanceRange
      else Inr (lo + int (raw g (drawn g) mod nat (hi - lo + 1)), g\<lparr>drawn := drawn g + 1\<rparr>))"

definition randBetween :: "int \<Rightarrow> int \<Rightarrow> Dungeon \<Rightarrow> Error + (int \<times> Dungeon)" where
  "randBetween lo hi d =
     (case rng d of
        None \<Rightarrow> Inl TypeError
      | Some g \<Rightarrow> bindE (integer g lo hi) (\<lambda>(v, g'). Inr (v, d\<lparr>rng := Some g'\<rparr>)))"

definition oneIn :: "int \<Rightarrow> Dungeon \<Rightarrow> Error + (bool \<times> Dungeon)" where
  "oneIn num d = bindE (randBetween 1 num d) (\<lambda>(v, d'). Inr (v = 1, d'))"

section \<open>Tiles\<close>

text \<open>\<^verbatim>\<open>this.tiles[x] && this.tiles[x][y]\<close>: the tile object at a matrix position, if any.\<close>

definition tileAt :: "ref list list \<Rightarrow> int \<Rightarrow> int \<Rightarrow> ref option" where
  "tileAt ts x y =
     (if 0 \<le> x \<and> nat x < length ts \<and> 0 \<le> y \<and> nat y < length (ts ! nat x)
      then Some (ts ! nat x ! nat y) else None)"

definition getTile :: "int \<Rightarrow> int \<Rightarrow> Dungeon \<Rightarrow> Error + ref" where
  "getTile x y d =
     (case tileAt (tiles d) x y of None \<Rightarrow> Inl (TileUnreachable x y) | Some r \<Rightarrow> Inr r)"

definition setTile :: "int \<Rightarrow> int \<Rightarrow> TileType option \<Rightarrow> Dungeon \<Rightarrow> Error + Dungeon" where
  "setTile x y ty d =
     bindE (getTile x y d) (\<lambda>r.
       case region d of
         None \<Rightarrow> Inl TypeError
       | Some reg \<Rightarrow>
           Inr (d\<lparr>heap := (heap d)(r := (heap d r)
                  \<lparr>tile_type := (case ty of None \<Rightarrow> Floor | Some t \<Rightarrow> t),
                   tile_region := region_id reg,
                   tile_regionType := region_type reg\<rparr>)\<rparr>))"

definition resetTile :: "int \<Rightarrow> int \<Rightarrow> Dungeon \<Rightarrow> Error + Dungeon" where
  "resetTile x y d =
     bindE (getTile x y d) (\<lambda>r.
       Inr (d\<lparr>heap := (heap d)(r := (heap d r)
              \<lparr>tile_type := Wall, tile_region := -1, tile_regionType := None\<rparr>)\<rparr>))"

definition isFloor :: "Tile \<Rightarrow> bool" where
  "isFloor t = (tile_type t = Floor)"

text \<open>\<^verbatim>\<open>this.neighbors.n?.isFloor()\<close>: false when the neighbour is absent.\<close>

definition floorAt :: "(ref \<Rightarrow> Tile) \<Rightarrow> ref option \<Rightarrow> bool" where
  "floorAt h r = (case r of None \<Rightarrow> False | Some a \<Rightarrow> isFloor (h a))"

definition isCorner :: "(ref \<Rightarrow> Tile) \<Rightarrow> Tile \<Rightarrow> bool" where
  "isCorner h t =
     (let nb = tile_neighbors t;
          c0 = (0::nat);
          c1 = (if floorAt h (nb_n nb) \<and> floorAt h (nb_e nb) then c0 + 1 else c0);
          c2 = (if floorAt h (nb_n nb) \<and> floorAt h (nb_w nb) then c1 + 1 else c1);
          c3 = (if floorAt h (nb_s nb) \<and> floorAt h (nb_e nb) then c2 + 1 else c2);
          c4 = (if floorAt h (nb_s nb) \<and> floorAt h (nb_w nb) then c3 + 1 else c3)
      in c4 = 1)"

text \<open>
  The spec's words for \<open>isCorner\<close>: the four diagonal quadrants around a tile, and
  "both cardinal neighbours of the quadrant are present and floor".
\<close>

datatype Quadrant = QuadNE | QuadNW | QuadSE | QuadSW

definition quadrantFloor :: "(ref \<Rightarrow> Tile) \<Rightarrow> Tile \<Rightarrow> Quadrant \<Rightarrow> bool" where
  "quadrantFloor h t q =
     (case q of
        QuadNE \<Rightarrow> floorAt h (nb_n (tile_neighbors t)) \<and> floorAt h (nb_e (tile_neighbors t))
      | QuadNW \<Rightarrow> floorAt h (nb_n (tile_neighbors t)) \<and> floorAt h (nb_w (tile_neighbors t))
      | QuadSE \<Rightarrow> floorAt h (nb_s (tile_neighbors t)) \<and> floorAt h (nb_e (tile_neighbors t))
      | QuadSW \<Rightarrow> floorAt h (nb_s (tile_neighbors t)) \<and> floorAt h (nb_w (tile_neighbors t)))"

section \<open>Validation of the stage\<close>

text \<open>
  \<open>validate\<close> rejects small stages, raises even dimensions by one, multiplies by the
  multiplier, and installs the generator: \<^verbatim>\<open>stage.seed || $chance.generateSlug()\<close> takes
  the generated slug when the seed is absent or falsy (the empty string).
\<close>

definition validate :: "Env \<Rightarrow> StageOptions \<Rightarrow> Dungeon \<Rightarrow> Error + Dungeon" where
  "validate env st d =
     (if width st < 5 then Inl (InvalidWidth (width st))
      else if height st < 5 then Inl (InvalidHeight (height st))
      else
        let w1 = (if width st mod 2 = 0 then width st + 1 else width st);
            h1 = (if height st mod 2 = 0 then height st + 1 else height st)
        in case multiplier (options d) of
             None \<Rightarrow> Inl NotANumber
           | Some m \<Rightarrow>
               let s = (case seed st of
                          None \<Rightarrow> generateSlug env
                        | Some s0 \<Rightarrow> if s0 = [] then generateSlug env else s0)
               in Inr (d\<lparr>rng := Some \<lparr>raw = chance env s, drawn = 0\<rparr>,
                          dungeonSeed := Some s,
                          stage := Some (st\<lparr>width := w1 * m, height := h1 * m\<rparr>)\<rparr>))"

section \<open>Filling the grid\<close>

text \<open>
  \<^verbatim>\<open>this.tiles[x].push(new Tile(type, x, y))\<close>: a fresh tile object is created and its
  reference appended to column \<open>x\<close> of the matrix as it is at that moment.
\<close>

definition pushTile :: "nat \<Rightarrow> Tile \<Rightarrow> Dungeon \<Rightarrow> Error + Dungeon" where
  "pushTile x t d =
     (if x < length (tiles d)
      then Inr (d\<lparr>heap := (heap d)(nextRef d := t), nextRef := nextRef d + 1,
                  tiles := (tiles d)[x := tiles d ! x @ [nextRef d]]\<rparr>)
      else Inl TypeError)"

text \<open>
  One round of the first loop of \<open>fill\<close>: \<^verbatim>\<open>this.tiles.push([])\<close>, then \<open>h\<close> pushes
  onto \<^verbatim>\<open>this.tiles[x]\<close>.
\<close>

definition fillColumn :: "TileType \<Rightarrow> nat \<Rightarrow> nat \<Rightarrow> Dungeon \<Rightarrow> Error + Dungeon" where
  "fillColumn ty h x d =
     foldE (\<lambda>y. pushTile x (newTile ty (int x) (int y))) [0..<h] (d\<lparr>tiles := tiles d @ [[]]\<rparr>)"

text \<open>
  The body of the second loop: the eight neighbour links of \<^verbatim>\<open>this.tiles[x][y]\<close>, each
  present when the matrix holds a tile at that position.
\<close>

definition wire :: "nat \<Rightarrow> nat \<Rightarrow> Dungeon \<Rightarrow> Error + Dungeon" where
  "wire x y d =
     (let ts = tiles d; i = int x; j = int y in
      case tileAt ts i j of
        None \<Rightarrow> Inl TypeError
      | Some r \<Rightarrow> Inr (d\<lparr>heap := (heap d)(r := (heap d r)\<lparr>tile_neighbors :=
          \<lparr>nb_n = tileAt ts i (j - 1), nb_ne = tileAt ts (i + 1) (j - 1),
           nb_e = tileAt ts (i + 1) j, nb_se = tileAt ts (i + 1) (j + 1),
           nb_s = tileAt ts i (j + 1), nb_sw = tileAt ts (i - 1) (j + 1),
           nb_w = tileAt ts (i - 1) j, nb_nw = tileAt ts (i - 1) (j - 1)\<rparr>\<rparr>)\<rparr>))"

definition fill :: "TileType \<Rightarrow> Dungeon \<Rightarrow> Error + Dungeon" where
  "fill ty d =
     (case stage d of
        None \<Rightarrow> Inl TypeError
      | Some st \<Rightarrow>
          bindE (foldE (fillColumn ty (nat (height st))) [0..<nat (width st)] d)
            (foldE (\<lambda>x. foldE (wire x) [0..<nat (height st)]) [0..<nat (width st)]))"

section \<open>Regions and rooms\<close>

text \<open>
  Modelled from the spec: \<^verbatim>\<open>new Region(type)\<close> (the \<^verbatim>\<open>Region\<close> class is not part of the
  sources). "Ids are assigned sequentially starting at 0; a new id is minted whenever
  the pipeline begins a new room or corridor", from a counter kept on the generator.
\<close>

definition startRegion :: "RegionType \<Rightarrow> Dungeon \<Rightarrow> Dungeon" where
  "startRegion ty d =
     d\<lparr>region := Some \<lparr>region_id = nextRegionId d, region_type = Some ty\<rparr>,
       nextRegionId := nextRegionId d + 1\<rparr>"

definition carveArea :: "int \<Rightarrow> int \<Rightarrow> int \<Rightarrow> int \<Rightarrow> Dungeon \<Rightarrow> Error + Dungeon" where
  "carveArea x y w h d =
     foldE (\<lambda>i. foldE (\<lambda>j. setTile i j (Some Floor)) [y..y + h - 1]) [x..x + w - 1] d"

text \<open>
  The outer limit of a room dimension, computed before the loop of \<open>addRooms\<close>:
  \<^verbatim>\<open>stage.width - 4 * multiplier\<close>, replaced by \<^verbatim>\<open>Math.ceil(stage.width * 0.5)\<close> when
  the stage is wider than 10 and the limit exceeds half of it.
\<close>

definition outerLimit :: "int \<Rightarrow> int \<Rightarrow> int" where
  "outerLimit dim m =
     (let lim = dim - 4 * m in
      if dim > 10 \<and> 2 * lim > dim then (dim + 1) div 2 else lim)"

text \<open>
  One round of the loop of \<open>addRooms\<close>. \<^verbatim>\<open>Room.touches\<close> is not part of the sources
  and is a parameter.
\<close>

definition roomAttempt ::
  "(Room \<Rightarrow> Room \<Rightarrow> bool) \<Rightarrow> int \<Rightarrow> int \<Rightarrow> Dungeon \<Rightarrow> Error + Dungeon" where
  "roomAttempt touches outer_width_limit outer_height_limit d =
     (case stage d of
        None \<Rightarrow> Inl TypeError
      | Some st \<Rightarrow>
     bindE (randBetween 1 (3 + roomExtraSize (options d)) d) (\<lambda>(r1, d1).
     let size = r1 * 2 + 1 in
     bindE (randBetween 0 (1 + size div 2) d1) (\<lambda>(r2, d2).
     let rectangularity = r2 * 2 in
     bindE (oneIn 2 d2) (\<lambda>(b, d3).
     let w = min (if b then size + rectangularity else size) outer_width_limit;
         h = min (if b then size else size + rectangularity) outer_height_limit in
     bindE (randBetween 0 ((width st - w) div 2) d3) (\<lambda>(r4, d4).
     bindE (randBetween 0 ((height st - h) div 2) d4) (\<lambda>(r5, d5).
     let x0 = r4 * 2 + 1;
         y0 = r5 * 2 + 1;
         x = (if x0 + w \<ge> width st then max 1 (width st - w - 1) else x0);
         y = (if y0 + h \<ge> height st then max 1 (height st - h - 1) else y0);
         room = \<lparr>room_x = x, room_y = y, room_width = w, room_height = h\<rparr>
     in if list_ex (touches room) (rooms d5) then Inr d5
        else carveArea x y w h
               (startRegion RoomRegion (d5\<lparr>rooms := rooms d5 @ [room]\<rparr>))))))))"

definition addRooms :: "(Room \<Rightarrow> Room \<Rightarrow> bool) \<Rightarrow> Dungeon \<Rightarrow> Error + Dungeon" where
  "addRooms touches d =
     (case stage d of
        None \<Rightarrow> Inl TypeError
      | Some st \<Rightarrow>
          (case multiplier (options d) of
             None \<Rightarrow> Inl NotANumber
           | Some m \<Rightarrow>
               foldE (\<lambda>i. roomAttempt touches (outerLimit (width st) m) (outerLimit (height st) m))
                 [0..<nat (roomTries (options d))] d))"

section \<open>Maze growth\<close>

text \<open>
  Modelled from the spec: \<^verbatim>\<open>cardinalDirections\<close> and \<^verbatim>\<open>parsePoint\<close> of the module
  \<^verbatim>\<open>Coordinates\<close>, which is not part of the sources: "the four cardinal unit offsets
  (0,-1),(1,0),(0,1),(-1,0) in that fixed order", each a \<^verbatim>\<open>PointArray\<close>, and the point
  \<open>{x, y}\<close> of such a pair.
\<close>

definition cardinalDirections :: "PointArray list" where
  "cardinalDirections = [(0, -1), (1, 0), (0, 1), (-1, 0)]"

definition parsePoint :: "PointArray \<Rightarrow> Point" where
  "parsePoint p = \<lparr>point_x = fst p, point_y = snd p\<rparr>"

text \<open>
  JavaScript's \<^verbatim>\<open>toString\<close>: an integer in decimal, an array as its elements joined by
  commas, and a plain object (the copy \<^verbatim>\<open>{...direction}\<close> kept in \<^verbatim>\<open>lastDirection\<close>) as
  the fixed text of \<^verbatim>\<open>Object.prototype.toString\<close>.
\<close>

definition digitChar :: "nat \<Rightarrow> char" where
  "digitChar n = ''0123456789'' ! n"

fun showNat :: "nat \<Rightarrow> string" where
  "showNat n = (if n < 10 then [digitChar n] else showNat (n div 10) @ [digitChar (n mod 10)])"

declare showNat.simps [simp del]

definition numberToString :: "int \<Rightarrow> string" where
  "numberToString i = (if i < 0 then CHR ''-'' # showNat (nat (- i)) else showNat (nat i))"

definition pointArrayToString :: "PointArray \<Rightarrow> string" where
  "pointArrayToString p = numberToString (fst p) @ '','' @ numberToString (snd p)"

definition objectToString :: "Point \<Rightarrow> string" where
  "objectToString p = ''[object Object]''"

fun indexOf :: "'a list \<Rightarrow> 'a \<Rightarrow> int" where
  "indexOf [] v = -1"
| "indexOf (x # xs) v =
     (if x = v then 0 else (let i = indexOf xs v in if i < 0 then -1 else i + 1))"

definition canCarve :: "Point \<Rightarrow> PointArray \<Rightarrow> Dungeon \<Rightarrow> Error + bool" where
  "canCarve cell offset d =
     (let parsed = parsePoint offset;
          end_x = point_x cell + point_x parsed * 3;
          end_y = point_y cell + point_y parsed * 3
      in case tileAt (tiles d) end_x end_y of
           None \<Rightarrow> Inr False
         | Some _ \<Rightarrow>
             bindE (getTile end_x end_y d) (\<lambda>e.
               if tile_type (heap d e) \<noteq> Wall then Inr False
               else bindE (getTile (point_x cell + point_x parsed * 2)
                                   (point_y cell + point_y parsed * 2) d)
                      (\<lambda>t. Inr (tile_type (heap d t) \<noteq> Floor))))"

text \<open>The directions of \<open>cardinalDirections\<close> that can be carved from a cell, in order.\<close>

definition unmade :: "Point \<Rightarrow> Dungeon \<Rightarrow> Error + PointArray list" where
  "unmade cell d =
     foldE (\<lambda>direction acc. bindE (canCarve cell direction d)
              (\<lambda>b. Inr (if b then acc @ [direction] else acc)))
       cardinalDirections []"

text \<open>
  The choice of the direction to carve (lines 282 to 289 of \<^verbatim>\<open>Dungeon.ts\<close>): the
  previous direction when it is set, its text is found among the texts of the
  candidates and a draw of \<open>[1, 100]\<close> exceeds \<open>windingPercent\<close> (the draw is only made
  when the first two tests pass), else the candidate at a random index.
\<close>

definition pickRandom :: "PointArray list \<Rightarrow> Dungeon \<Rightarrow> Error + (Point \<times> Dungeon)" where
  "pickRandom unmadeCells d =
     bindE (randBetween 0 (int (length unmadeCells) - 1) d)
       (\<lambda>(rand, d'). Inr (parsePoint (unmadeCells ! nat rand), d'))"

definition chooseDirection ::
  "Point option \<Rightarrow> PointArray list \<Rightarrow> Dungeon \<Rightarrow> Error + (Point \<times> Dungeon)" where
  "chooseDirection lastDirection unmadeCells d =
     (let cellIds = map pointArrayToString unmadeCells in
      case lastDirection of
        None \<Rightarrow> pickRandom unmadeCells d
      | Some ld \<Rightarrow>
          if indexOf cellIds (objectToString ld) > -1
          then bindE (randBetween 1 100 d) (\<lambda>(r, d').
                 if r > windingPercent (options d') then Inr (ld, d')
                 else pickRandom unmadeCells d')
          else pickRandom unmadeCells d)"

text \<open>
  One round of the loop of \<open>growMaze\<close>, on the stack of cells (the top is the last
  element), the previous direction and the dungeon.
\<close>

definition growStep ::
  "Point list \<Rightarrow> Point option \<Rightarrow> Dungeon \<Rightarrow> Error + (Point list \<times> Point option \<times> Dungeon)" where
  "growStep cells lastDirection d =
     (let cell = last cells in
      bindE (unmade cell d) (\<lambda>unmadeCells.
        if unmadeCells \<noteq> [] then
          bindE (chooseDirection lastDirection unmadeCells d) (\<lambda>(direction, d1).
          bindE (setTile (point_x cell + point_x direction) (point_y cell + point_y direction)
                   (Some Floor) d1) (\<lambda>d2.
          let newCell = \<lparr>point_x = point_x cell + point_x direction * 2,
                         point_y = point_y cell + point_y direction * 2\<rparr> in
          bindE (setTile (point_x newCell) (point_y newCell) (Some Floor) d2) (\<lambda>d3.
          Inr (cells @ [newCell], Some direction, d3))))
        else Inr (butlast cells, None, d)))"

function growLoop ::
  "nat \<Rightarrow> Point list \<Rightarrow> Point option \<Rightarrow> Dungeon \<Rightarrow> Error + Dungeon" where
  "growLoop count cells lastDirection d =
     (if cells \<noteq> [] \<and> count < 500
      then bindE (growStep cells lastDirection d)
             (\<lambda>(cells', lastDirection', d'). growLoop (count + 1) cells' lastDirection' d')
      else Inr d)"
  by pat_completeness auto
termination
  by (relation "measure (\<lambda>(count, cells, lastDirection, d). 500 - count)") auto

declare growLoop.simps [simp del]

text \<open>
  Modelled from the spec: the early exit of \<open>growMaze\<close> tests the length of
  \<^verbatim>\<open>objectFilter(neighbors, ...)\<close>, a utility from outside the repository; the spec reads
  it as "if any neighbor of the start cell is already floor, abort".
\<close>

definition anyNeighborFloor :: "(ref \<Rightarrow> Tile) \<Rightarrow> Tile \<Rightarrow> bool" where
  "anyNeighborFloor h t =
     (let nb = tile_neighbors t in
      list_ex (floorAt h) [nb_n nb, nb_ne nb, nb_e nb, nb_se nb, nb_s nb, nb_sw nb, nb_w nb, nb_nw nb])"

definition growMaze :: "int \<Rightarrow> int \<Rightarrow> Dungeon \<Rightarrow> Error + Dungeon" where
  "growMaze startX startY d =
     (case tileAt (tiles d) startX startY of
        None \<Rightarrow> Inl TypeError
      | Some r \<Rightarrow>
          if anyNeighborFloor (heap d) (heap d r) then Inr d
          else bindE (setTile startX startY (Some Floor) (startRegion CorridorRegion d))
                 (growLoop 0 [\<lparr>point_x = startX, point_y = startY\<rparr>] None))"

section \<open>Connecting regions\<close>

text \<open>
  Modelled from the spec: the neighbour query of \<^verbatim>\<open>NeighborQuery\<close> (not part of the
  sources) at its defaults, "cardinal" directions and "BFS radius" 1: the tiles under
  the links n, e, s, w. \<open>nearDoors\<close> and \<open>isAtEnd\<close> of \<^verbatim>\<open>Tile\<close> filter it by type.
\<close>

definition cardinal :: "Tile \<Rightarrow> ref list" where
  "cardinal t =
     (let nb = tile_neighbors t in
      concat (map (\<lambda>r. case r of None \<Rightarrow> [] | Some a \<Rightarrow> [a]) [nb_n nb, nb_e nb, nb_s nb, nb_w nb]))"

definition doors :: "(ref \<Rightarrow> Tile) \<Rightarrow> Tile \<Rightarrow> ref list" where
  "doors h t = filter (\<lambda>a. tile_type (h a) = Door) (cardinal t)"

definition floors :: "(ref \<Rightarrow> Tile) \<Rightarrow> Tile \<Rightarrow> ref list" where
  "floors h t = filter (\<lambda>a. tile_type (h a) = Floor) (cardinal t)"

definition nearDoors :: "(ref \<Rightarrow> Tile) \<Rightarrow> Tile \<Rightarrow> bool" where
  "nearDoors h t = (length (doors h t) > 0)"

definition isAtEnd :: "(ref \<Rightarrow> Tile) \<Rightarrow> Tile \<Rightarrow> bool" where
  "isAtEnd h t = (length (floors h t) = 1)"

text \<open>\<^verbatim>\<open>door.type = 'door'\<close> on a tile object.\<close>

definition markDoor :: "ref \<Rightarrow> Dungeon \<Rightarrow> Dungeon" where
  "markDoor door d = d\<lparr>heap := (heap d)(door := (heap d door)\<lparr>tile_type := Door\<rparr>)\<rparr>"

text \<open>
  The attempt loop over one bucket (lines 420 to 438). \<open>dc\<close> is
  \<^verbatim>\<open>this.options.doorChance\<close>, which nothing changes while the loop runs.
\<close>

function doorAttempts ::
  "ref list \<Rightarrow> int \<Rightarrow> int \<Rightarrow> int \<Rightarrow> int \<Rightarrow> ref list \<Rightarrow> Dungeon
     \<Rightarrow> Error + (int \<times> ref list \<times> Dungeon)" where
  "doorAttempts connections doorCount dc added_connections i failedByChance d =
     (if added_connections < doorCount \<and> i < dc
      then bindE (randBetween 0 (int (length connections) - 1) d) (\<lambda>(rand, d1).
           bindE (oneIn dc d1) (\<lambda>(byChance, d2).
           let door = connections ! nat rand in
           if \<not> isCorner (heap d2) (heap d2 door) \<and> \<not> nearDoors (heap d2) (heap d2 door)
              \<and> \<not> isAtEnd (heap d2) (heap d2 door)
           then if byChance
                then doorAttempts connections doorCount dc (added_connections + 1) (i + 1)
                       failedByChance (markDoor door d2)
                else doorAttempts connections doorCount dc added_connections (i + 1)
                       (failedByChance @ [door]) d2
           else doorAttempts connections doorCount dc added_connections (i + 1)
                  failedByChance d2))
      else Inr (added_connections, failedByChance, d))"
  by pat_completeness auto
termination
  by (relation "measure (\<lambda>(connections, doorCount, dc, added_connections, i, failedByChance, d).
        nat (dc - i))") auto

declare doorAttempts.simps [simp del]

text \<open>
  The fallback (lines 441 to 448): when no door was added, one is forced on a tile drawn
  from the tiles that failed by chance only, or from the whole bucket when there are
  none.
\<close>

definition forcedDoor :: "ref list \<Rightarrow> ref list \<Rightarrow> int \<Rightarrow> Dungeon \<Rightarrow> Error + (int \<times> Dungeon)" where
  "forcedDoor connections failedByChance added_connections d =
     (if added_connections = 0
      then (let candidates = (if failedByChance \<noteq> [] then failedByChance else connections) in
            bindE (randBetween 0 (int (length candidates) - 1) d) (\<lambda>(rand, d').
              Inr (added_connections + 1, markDoor (candidates ! nat rand) d')))
      else Inr (added_connections, d))"

text \<open>
  The body of the loop over the buckets (lines 414 to 453): the attempts, the forced
  door when none was added, and the error message when still none was added.
\<close>

definition connectBucket :: "ref list \<Rightarrow> Dungeon \<Rightarrow> Error + Dungeon" where
  "connectBucket connections d =
     bindE (randBetween 1 (maxDoors (options d)) d) (\<lambda>(doorCount, d1).
     bindE (doorAttempts connections doorCount (doorChance (options d1)) 0 0 [] d1)
       (\<lambda>(added_connections, failedByChance, d2).
     bindE (forcedDoor connections failedByChance added_connections d2)
       (\<lambda>(added_connections', d3).
     Inr (if added_connections' = 0 then d3\<lparr>doorFailures := doorFailures d3 + 1\<rparr> else d3))))"

text \<open>
  The buckets. The query that lists the regions around a tile (\<^verbatim>\<open>Query\<close>) is not part
  of the sources and is a parameter \<open>tileRegions\<close>, read on the matrix, the store and
  the tile; \<open>connectionStep\<close> is the body of the loops over the tiles (lines 395 to 408). The record \<^verbatim>\<open>regionConnections\<close> is a list of keys with their buckets in the
  order the keys were added, which is the order \<^verbatim>\<open>Object.values\<close> lists them in (a key
  joins at least two numbers and so holds a dash).
\<close>

definition joinRegions :: "int list \<Rightarrow> string" where
  "joinRegions rs =
     (case rs of [] \<Rightarrow> [] | r # rest \<Rightarrow>
        numberToString r @ concat (map (\<lambda>q. ''-'' @ numberToString q) rest))"

definition addConnection ::
  "string \<Rightarrow> ref \<Rightarrow> (string \<times> ref list) list \<Rightarrow> (string \<times> ref list) list" where
  "addConnection key r m =
     (if map_of m key = None then m @ [(key, [r])]
      else map (\<lambda>(k, v). if k = key then (k, v @ [r]) else (k, v)) m)"

definition connectionStep ::
  "(ref list list \<Rightarrow> (ref \<Rightarrow> Tile) \<Rightarrow> ref \<Rightarrow> int list) \<Rightarrow> Dungeon
     \<Rightarrow> (string \<times> ref list) list \<Rightarrow> ref \<Rightarrow> (string \<times> ref list) list" where
  "connectionStep tileRegions d m r =
     (if tile_type (heap d r) \<noteq> Wall \<or> tile_region (heap d r) \<noteq> -1 then m
      else (let regions = tileRegions (tiles d) (heap d) r in
            if length regions \<le> 1 then m
            else addConnection (joinRegions regions) r m))"

definition collectConnections ::
  "(ref list list \<Rightarrow> (ref \<Rightarrow> Tile) \<Rightarrow> ref \<Rightarrow> int list) \<Rightarrow> Dungeon \<Rightarrow> (string \<times> ref list) list" where
  "collectConnections tileRegions d =
     foldl (connectionStep tileRegions d) [] (concat (tiles d))"

definition connectRegions ::
  "(ref list list \<Rightarrow> (ref \<Rightarrow> Tile) \<Rightarrow> ref \<Rightarrow> int list) \<Rightarrow> Dungeon \<Rightarrow> Error + Dungeon" where
  "connectRegions tileRegions d =
     foldE connectBucket (map snd (collectConnections tileRegions d)) d"

text \<open>
  Modelled from the spec: the query of \<open>connectRegions\<close> as the spec fixes it, the
  distinct region ids other than \<open>-1\<close> of the cardinal neighbours at level 1.
\<close>

definition cardinalRegions :: "ref list list \<Rightarrow> (ref \<Rightarrow> Tile) \<Rightarrow> ref \<Rightarrow> int list" where
  "cardinalRegions ts h r =
     remdups (filter (\<lambda>q. q \<noteq> -1) (map (\<lambda>a. tile_region (h a)) (cardinal (h r))))"

section \<open>Removing dead ends\<close>

text \<open>
  The body of the loops of \<^verbatim>\<open>cycle\<close> for one tile object, on the flag \<open>done\<close> and the
  dungeon. \<^verbatim>\<open>this.resetTile(tile)\<close> goes through the coordinates the tile records.
  \<^verbatim>\<open>Room.containsTile\<close> is not part of the sources and is a parameter.
\<close>

definition deadEndStep ::
  "(Room \<Rightarrow> int \<Rightarrow> int \<Rightarrow> bool) \<Rightarrow> ref \<Rightarrow> bool \<times> Dungeon \<Rightarrow> Error + (bool \<times> Dungeon)" where
  "deadEndStep containsTile r s =
     (let d = snd s; t = heap d r in
      if tile_type t = Wall then Inr s
      else if length (filter (\<lambda>a. tile_type (heap d a) \<noteq> Wall) (cardinal t)) \<le> 1
              \<and> \<not> list_ex (\<lambda>room. containsTile room (tile_x t) (tile_y t)) (rooms d)
           then bindE (resetTile (tile_x t) (tile_y t) d) (\<lambda>d'. Inr (False, d'))
           else Inr s)"

definition cycle :: "(Room \<Rightarrow> int \<Rightarrow> int \<Rightarrow> bool) \<Rightarrow> Dungeon \<Rightarrow> Error + (bool \<times> Dungeon)" where
  "cycle containsTile d = foldE (deadEndStep containsTile) (concat (tiles d)) (True, d)"

text \<open>
  \<^verbatim>\<open>while (!done) { done = cycle() }\<close>. The loop has no bound in the source: the result
  is \<open>None\<close> when it runs forever. An error thrown in a pass ends the loop.
\<close>

definition removeDeadEnds ::
  "(Room \<Rightarrow> int \<Rightarrow> int \<Rightarrow> bool) \<Rightarrow> Dungeon \<Rightarrow> (Error + (bool \<times> Dungeon)) option" where
  "removeDeadEnds containsTile d =
     while_option
       (\<lambda>s. case s of Inl e \<Rightarrow> False | Inr (done, d') \<Rightarrow> \<not> done)
       (\<lambda>s. case s of Inl e \<Rightarrow> Inl e | Inr (done, d') \<Rightarrow> cycle containsTile d')
       (Inr (False, d))"

section \<open>The pipeline\<close>

text \<open>The values \<open>1, 3, 5, ...\<close> below \<open>n\<close>: \<^verbatim>\<open>for (let y = 1; y < n; y += 2)\<close>.\<close>

definition oddsBelow :: "int \<Rightarrow> int list" where
  "oddsBelow n = map (\<lambda>k. 2 * int k + 1) [0..<nat (n div 2)]"

definition growAll :: "StageOptions \<Rightarrow> Dungeon \<Rightarrow> Error + Dungeon" where
  "growAll st d =
     foldE (\<lambda>y. foldE (\<lambda>x d'.
              bindE (getTile x y d') (\<lambda>r.
                if tile_type (heap d' r) = Floor then Inr d' else growMaze x y d'))
            (oddsBelow (width st)))
       (oddsBelow (height st)) d"

text \<open>
  What \<open>build\<close> takes from the parts of the repository that are not in the sources:
  \<^verbatim>\<open>Room.touches\<close>, \<^verbatim>\<open>Room.containsTile\<close> and the region query of \<open>connectRegions\<close>.
\<close>

record Parts =
  parts_touches :: "Room \<Rightarrow> Room \<Rightarrow> bool"
  parts_containsTile :: "Room \<Rightarrow> int \<Rightarrow> int \<Rightarrow> bool"
  parts_tileRegions :: "ref list list \<Rightarrow> (ref \<Rightarrow> Tile) \<Rightarrow> ref \<Rightarrow> int list"

text \<open>
  \<open>build\<close> on an instance: the dungeon after the call (its rooms, tiles and seed are
  what \<^verbatim>\<open>new Results(this.rooms, this.tiles, this.seed)\<close> is given), an error, or
  \<open>None\<close> when the removal of dead ends never ends.
\<close>

definition build :: "Env \<Rightarrow> Parts \<Rightarrow> StageOptions \<Rightarrow> Dungeon \<Rightarrow> (Error + Dungeon) option" where
  "build env parts st d =
     (case bindE (validate env st d) (\<lambda>d1.
           bindE (fill Wall d1) (\<lambda>d2.
           bindE (addRooms (parts_touches parts) d2) (\<lambda>d3.
           case stage d3 of
             None \<Rightarrow> Inl TypeError
           | Some st' \<Rightarrow> bindE (growAll st' d3) (connectRegions (parts_tileRegions parts))))) of
        Inl e \<Rightarrow> Some (Inl e)
      | Inr d5 \<Rightarrow>
          if removeDeadEndsOpt (options d5)
          then map_option (\<lambda>s. case s of Inl e \<Rightarrow> Inl e | Inr (done, d6) \<Rightarrow> Inr d6)
                 (removeDeadEnds (parts_containsTile parts) d5)
          else Some (Inr d5))"

text \<open>The tile matrix as the caller reads it: the tile objects under the references.\<close>

definition tileMatrix :: "Dungeon \<Rightarrow> Tile list list" where
  "tileMatrix d = map (map (heap d)) (tiles d)"

section \<open>Example inputs\<close>

text \<open>
  A stream of raw numbers that starts with the given ones and continues with zeros,
  and the environment whose generator yields it for every seed.
\<close>

definition streamOf :: "nat list \<Rightarrow> nat \<Rightarrow> nat" where
  "streamOf xs i = (if i < length xs then xs ! i else 0)"

definition exampleEnv :: "nat list \<Rightarrow> Env" where
  "exampleEnv xs = \<lparr>generateSlug = ''slug'', chance = (\<lambda>s. streamOf xs)\<rparr>"

text \<open>
  Modelled from the spec: \<^verbatim>\<open>Room.touches\<close> ("true when the rectangles inflated by 1 on
  every side intersect, i.e. there is no 1-wide wall between them") and
  \<^verbatim>\<open>Room.containsTile\<close>, used only to run the pipeline on example inputs.
\<close>

definition touchesInflated :: "Room \<Rightarrow> Room \<Rightarrow> bool" where
  "touchesInflated a b \<longleftrightarrow>
     room_x a - 1 < room_x b + room_width b \<and> room_x b < room_x a + room_width a + 1 \<and>
     room_y a - 1 < room_y b + room_height b \<and> room_y b < room_y a + room_height a + 1"

definition containsTileIn :: "Room \<Rightarrow> int \<Rightarrow> int \<Rightarrow> bool" where
  "containsTileIn r x y \<longleftrightarrow>
     room_x r \<le> x \<and> x < room_x r + room_width r \<and> room_y r \<le> y \<and> y < room_y r + room_height r"

definition exampleParts :: Parts where
  "exampleParts = \<lparr>parts_touches = touchesInflated, parts_containsTile = containsTileIn,
                    parts_tileRegions = cardinalRegions\<rparr>"

section \<open>What a step leaves alone\<close>

text \<open>
  \<open>keeps d d'\<close>: from \<open>d\<close> to \<open>d'\<close> the options, the stage, the matrix, the seed and the
  allocation counter are the same, the list of rooms has only grown at its end, and
  every tile object has kept its coordinates and its neighbour links.
  \<open>heapOnly d d'\<close>: only tile objects have changed.
\<close>

definition keeps :: "Dungeon \<Rightarrow> Dungeon \<Rightarrow> bool" where
  "keeps d d' \<longleftrightarrow>
     options d' = options d \<and> stage d' = stage d \<and> tiles d' = tiles d \<and>
     dungeonSeed d' = dungeonSeed d \<and> nextRef d' = nextRef d \<and> prefix (rooms d) (rooms d') \<and>
     (\<forall>a. tile_x (heap d' a) = tile_x (heap d a) \<and> tile_y (heap d' a) = tile_y (heap d a)
          \<and> tile_neighbors (heap d' a) = tile_neighbors (heap d a))"

definition heapOnly :: "Dungeon \<Rightarrow> Dungeon \<Rightarrow> bool" where
  "heapOnly d d' \<longleftrightarrow> d' = d\<lparr>heap := heap d'\<rparr>"

text \<open>
  \<open>doorsOnlyIn S d d'\<close>: from \<open>d\<close> to \<open>d'\<close> a tile object is either unchanged or, if its
  reference is in \<open>S\<close>, differs by its type alone, which is now door.
  \<open>attemptsPost\<close> is what the attempt loop over a bucket guarantees of its result.
\<close>

definition doorsOnlyIn :: "ref set \<Rightarrow> Dungeon \<Rightarrow> Dungeon \<Rightarrow> bool" where
  "doorsOnlyIn S d d' \<longleftrightarrow>
     (\<forall>a. heap d' a = heap d a \<or> (a \<in> S \<and> heap d' a = (heap d a)\<lparr>tile_type := Door\<rparr>))"

definition attemptsPost ::
  "ref list \<Rightarrow> int \<Rightarrow> ref list \<Rightarrow> Dungeon \<Rightarrow> int \<times> ref list \<times> Dungeon \<Rightarrow> bool" where
  "attemptsPost c added failed d res \<longleftrightarrow>
     (case res of (added', failed', d') \<Rightarrow>
        added \<le> added' \<and> set failed' \<subseteq> set failed \<union> set c \<and>
        doorFailures d' = doorFailures d \<and> options d' = options d \<and>
        doorsOnlyIn (set c) d d' \<and> keeps d d' \<and>
        (added < added' \<longrightarrow> (\<exists>a \<in> set c. tile_type (heap d' a) = Door)))"

section \<open>Example states of maze growth\<close>




text \<open>
  Two rounds of the loop of \<open>addRooms\<close> on a 5 by 5 stage, kept when the first adds the
  room \<open>(3, 3, 1, 1)\<close> to an empty list and the second adds none.
\<close>

definition twoAttempts :: "Dungeon \<Rightarrow> Error + (Dungeon \<times> Dungeon)" where
  "twoAttempts d =
     bindE (roomAttempt touchesInflated (outerLimit 5 1) (outerLimit 5 1) d) (\<lambda>d1.
     bindE (roomAttempt touchesInflated (outerLimit 5 1) (outerLimit 5 1) d1) (\<lambda>d2.
       if rooms d = [] \<and> rooms d1 = [\<lparr>room_x = 3, room_y = 3, room_width = 1, room_height = 1\<rparr>]
          \<and> rooms d2 = rooms d1
       then Inr (d1, d2) else Inl TypeError))"

section \<open>Steps of the generation\<close>

text \<open>
  \<open>steps d d'\<close>: the dungeon \<open>d'\<close> is reached from \<open>d\<close> by draws, by setting and resetting
  tiles, by starting regions and by appending rooms. Rooms, maze growth and the passes
  of the removal of dead ends are made of such steps.
  \<open>tagOk d\<close>: a tile with region \<open>-1\<close> has no region type, and region ids are not negative.
\<close>

inductive steps :: "Dungeon \<Rightarrow> Dungeon \<Rightarrow> bool" where
  steps_refl: "steps d d"
| steps_draw: "steps d d1 \<Longrightarrow> randBetween lo hi d1 = Inr (v, d2) \<Longrightarrow> steps d d2"
| steps_set: "steps d d1 \<Longrightarrow> setTile x y ty d1 = Inr d2 \<Longrightarrow> steps d d2"
| steps_reset: "steps d d1 \<Longrightarrow> resetTile x y d1 = Inr d2 \<Longrightarrow> steps d d2"
| steps_region: "steps d d1 \<Longrightarrow> steps d (startRegion ty d1)"
| steps_room: "steps d d1 \<Longrightarrow> steps d (d1\<lparr>rooms := rooms d1 @ [room]\<rparr>)"

definition tagOk :: "Dungeon \<Rightarrow> bool" where
  "tagOk d \<longleftrightarrow>
     (\<forall>a. tile_region (heap d a) = -1 \<longrightarrow> tile_regionType (heap d a) = None) \<and>
     0 \<le> nextRegionId d \<and> (\<forall>reg. region d = Some reg \<longrightarrow> 0 \<le> region_id reg)"

text \<open>
  The part of \<open>build\<close> that precedes \<open>connectRegions\<close>, and an example of it followed by
  \<open>connectRegions\<close>: a 5 by 5 stage with one room, kept when the wall tile \<open>7\<close>, at
  \<open>(1, 2)\<close> between the room and the corridor, has become a door.
\<close>

definition prepare :: "Env \<Rightarrow> Parts \<Rightarrow> StageOptions \<Rightarrow> Dungeon \<Rightarrow> Error + Dungeon" where
  "prepare env parts st d =
     bindE (validate env st d) (\<lambda>d1.
     bindE (fill Wall d1) (\<lambda>d2.
     bindE (addRooms (parts_touches parts) d2) (\<lambda>d3.
     case stage d3 of
       None \<Rightarrow> Inl TypeError
     | Some st' \<Rightarrow> growAll st' d3)))"

definition doorExample :: "Error + (Dungeon \<times> Dungeon)" where
  "doorExample =
     bindE (prepare (exampleEnv []) exampleParts \<lparr>width = 5, height = 5, seed = Some ''s1''\<rparr>
              (newDungeon (defaultDungeonOptions\<lparr>roomTries := 1\<rparr>)))
       (\<lambda>d. bindE (connectRegions cardinalRegions d) (\<lambda>d'.
          if tile_type (heap d 7) = Wall \<and> tile_type (heap d' 7) = Door
          then Inr (d, d') else Inl TypeError))"

text \<open>
  The rooms that \<open>addRooms\<close> leaves on a fresh instance, for a stream of raw numbers,
  a stage and options.
\<close>

definition roomsOf :: "nat list \<Rightarrow> StageOptions \<Rightarrow> DungeonOptions \<Rightarrow> Error + Room list" where
  "roomsOf xs st opts =
     bindE (validate (exampleEnv xs) st (newDungeon opts)) (\<lambda>d1.
     bindE (fill Wall d1) (\<lambda>d2.
     bindE (addRooms touchesInflated d2) (\<lambda>d3. Inr (rooms d3))))"

section \<open>Basic facts\<close>

lemma bindE_simps [simp, code]:
  "bindE (Inl e) f = Inl e"
  "bindE (Inr v) f = f v"
  by (simp_all add: bindE_def)

lemma bindE_Inr_iff: "bindE m f = Inr r \<longleftrightarrow> (\<exists>v. m = Inr v \<and> f v = Inr r)"
  by (cases m) simp_all

lemma isOk_simps [simp, code]:
  "isOk (Inl e) = False"
  "isOk (Inr v) = True"
  by (simp_all add: isOk_def)

section \<open>Corners\<close>

text \<open>
  C8. For every tile, \<open>isCorner\<close> is true if and only if exactly one of the four
  quadrant pairs of cardinal neighbours (n,e), (n,w), (s,e), (s,w) has both members
  present and of type floor.
\<close>

theorem isCorner_iff_exactly_one_quadrant:
  "isCorner h t \<longleftrightarrow> (\<exists>!q. quadrantFloor h t q)"
proof -
  have all: "\<And>P. (\<exists>!q. P q) \<longleftrightarrow>
      (P QuadNE \<and> \<not> P QuadNW \<and> \<not> P QuadSE \<and> \<not> P QuadSW) \<or>
      (\<not> P QuadNE \<and> P QuadNW \<and> \<not> P QuadSE \<and> \<not> P QuadSW) \<or>
      (\<not> P QuadNE \<and> \<not> P QuadNW \<and> P QuadSE \<and> \<not> P QuadSW) \<or>
      (\<not> P QuadNE \<and> \<not> P QuadNW \<and> \<not> P QuadSE \<and> P QuadSW)"
  proof -
    fix P :: "Quadrant \<Rightarrow> bool"
    show "?thesis P"
    proof
      assume "\<exists>!q. P q"
      then obtain q where q: "P q" "\<And>q'. P q' \<Longrightarrow> q' = q" by auto
      then show "(P QuadNE \<and> \<not> P QuadNW \<and> \<not> P QuadSE \<and> \<not> P QuadSW) \<or>
        (\<not> P QuadNE \<and> P QuadNW \<and> \<not> P QuadSE \<and> \<not> P QuadSW) \<or>
        (\<not> P QuadNE \<and> \<not> P QuadNW \<and> P QuadSE \<and> \<not> P QuadSW) \<or>
        (\<not> P QuadNE \<and> \<not> P QuadNW \<and> \<not> P QuadSE \<and> P QuadSW)"
        by (cases q) (auto dest: q(2))
    next
      assume "(P QuadNE \<and> \<not> P QuadNW \<and> \<not> P QuadSE \<and> \<not> P QuadSW) \<or>
        (\<not> P QuadNE \<and> P QuadNW \<and> \<not> P QuadSE \<and> \<not> P QuadSW) \<or>
        (\<not> P QuadNE \<and> \<not> P QuadNW \<and> P QuadSE \<and> \<not> P QuadSW) \<or>
        (\<not> P QuadNE \<and> \<not> P QuadNW \<and> \<not> P QuadSE \<and> P QuadSW)"
      then show "\<exists>!q. P q"
        by (elim disjE conjE) (rule ex1I, assumption, metis Quadrant.exhaust)+
    qed
  qed
  show ?thesis
    unfolding all by (simp add: isCorner_def quadrantFloor_def Let_def)
qed

lemma foldE_invariant:
  assumes "foldE f as s = Inr s'" and "P s"
    and "\<And>a t t'. a \<in> set as \<Longrightarrow> P t \<Longrightarrow> f a t = Inr t' \<Longrightarrow> P t'"
  shows "P s'"
  using assms
proof (induction as arbitrary: s)
  case Nil
  then show ?case by simp
next
  case (Cons a as)
  from Cons.prems(1) obtain t where t: "f a s = Inr t" and rest: "foldE f as t = Inr s'"
    by (auto simp: bindE_Inr_iff)
  have "P t" using Cons.prems(3)[OF list.set_intros(1) Cons.prems(2) t] .
  moreover have "\<And>b u u'. b \<in> set as \<Longrightarrow> P u \<Longrightarrow> f b u = Inr u' \<Longrightarrow> P u'"
    using Cons.prems(3)[OF list.set_intros(2)] by blast
  ultimately show ?case using Cons.IH[OF rest] by blast
qed

lemma integer_Inr:
  assumes "integer g lo hi = Inr (v, g')"
  shows "lo \<le> hi \<and> lo \<le> v \<and> v \<le> hi \<and> v = lo + int (raw g (drawn g) mod nat (hi - lo + 1))
         \<and> g' = g\<lparr>drawn := drawn g + 1\<rparr>"
proof -
  from assms have le: "lo \<le> hi" by (auto simp: integer_def split: if_splits)
  from assms le have v: "v = lo + int (raw g (drawn g) mod nat (hi - lo + 1))"
    and g': "g' = g\<lparr>drawn := drawn g + 1\<rparr>"
    by (auto simp: integer_def)
  have "raw g (drawn g) mod nat (hi - lo + 1) < nat (hi - lo + 1)"
    using le by (intro mod_less_divisor) simp
  then have "int (raw g (drawn g) mod nat (hi - lo + 1)) < hi - lo + 1"
    using le by linarith
  with v g' le show ?thesis by simp
qed

lemma randBetween_Inr:
  assumes "randBetween lo hi d = Inr (v, d')"
  shows "\<exists>g g'. rng d = Some g \<and> integer g lo hi = Inr (v, g') \<and> d' = d\<lparr>rng := Some g'\<rparr>"
  using assms by (auto simp: randBetween_def bindE_Inr_iff split: option.splits)

lemma randBetween_range:
  assumes "randBetween lo hi d = Inr (v, d')"
  shows "lo \<le> v \<and> v \<le> hi"
  using randBetween_Inr[OF assms] integer_Inr by blast

lemma oneIn_Inr:
  assumes "oneIn num d = Inr (b, d')"
  shows "\<exists>v. randBetween 1 num d = Inr (v, d') \<and> b = (v = 1)"
  using assms by (auto simp: oneIn_def bindE_Inr_iff)

lemma newDungeon_multiplier:
  "\<exists>m. multiplier (options (newDungeon opts)) = Some m \<and> 1 \<le> m"
  by (cases "multiplier opts") (simp_all add: newDungeon_def coerceMultiplier_def)

lemma validate_Inr:
  assumes "validate env st d = Inr d'"
  shows "5 \<le> width st \<and> 5 \<le> height st \<and> (\<exists>m s. multiplier (options d) = Some m \<and>
     d' = d\<lparr>rng := Some \<lparr>raw = chance env s, drawn = 0\<rparr>, dungeonSeed := Some s,
            stage := Some (st\<lparr>width := (if width st mod 2 = 0 then width st + 1 else width st) * m,
                               height := (if height st mod 2 = 0 then height st + 1 else height st) * m\<rparr>)\<rparr>)"
  using assms by (auto simp: validate_def Let_def split: if_splits option.splits)

section \<open>Effective dimensions\<close>

text \<open>
  C2 (as amended). For every stage that passes validation and every multiplier the
  constructor can leave (an integer \<open>m \<ge> 1\<close>), each effective dimension is the input
  dimension raised to the next odd number and multiplied by \<open>m\<close>; it is at least 5,
  and it is odd exactly when the multiplier is odd.
\<close>

theorem validate_effective_dimensions:
  assumes "validate env st d = Inr d'" and "multiplier (options d) = Some m" and "1 \<le> m"
  shows "\<exists>st'. stage d' = Some st'
     \<and> width st' = (if even (width st) then width st + 1 else width st) * m
     \<and> height st' = (if even (height st) then height st + 1 else height st) * m
     \<and> 5 \<le> width st' \<and> 5 \<le> height st'
     \<and> (odd (width st') \<longleftrightarrow> odd m) \<and> (odd (height st') \<longleftrightarrow> odd m)"
proof -
  define w1 where "w1 = (if even (width st) then width st + 1 else width st)"
  define h1 where "h1 = (if even (height st) then height st + 1 else height st)"
  have w1': "(if width st mod 2 = 0 then width st + 1 else width st) = w1"
    and h1': "(if height st mod 2 = 0 then height st + 1 else height st) = h1"
    by (simp_all add: w1_def h1_def even_iff_mod_2_eq_zero)
  from validate_Inr[OF assms(1)] obtain m' s where
    ge: "5 \<le> width st" "5 \<le> height st" and m': "multiplier (options d) = Some m'" and
    d': "d' = d\<lparr>rng := Some \<lparr>raw = chance env s, drawn = 0\<rparr>, dungeonSeed := Some s,
            stage := Some (st\<lparr>width := w1 * m', height := h1 * m'\<rparr>)\<rparr>"
    unfolding w1' h1' by blast
  from m' assms(2) have mm: "m' = m" by simp
  have st': "stage d' = Some (st\<lparr>width := w1 * m, height := h1 * m\<rparr>)"
    unfolding d' mm by simp
  have w1: "5 \<le> w1" "odd w1" using ge(1) by (auto simp: w1_def)
  have h1: "5 \<le> h1" "odd h1" using ge(2) by (auto simp: h1_def)
  have "5 * 1 \<le> w1 * m" using w1(1) assms(3) by (intro mult_mono) simp_all
  moreover have "5 * 1 \<le> h1 * m" using h1(1) assms(3) by (intro mult_mono) simp_all
  ultimately show ?thesis
    unfolding st' w1_def[symmetric] h1_def[symmetric] using w1(2) h1(2) by simp
qed

theorem validate_effective_dimensions_witness:
  "\<exists>d' st'. validate (exampleEnv []) \<lparr>width = 6, height = 9, seed = None\<rparr>
              (newDungeon (defaultDungeonOptions\<lparr>multiplier := Some 3\<rparr>)) = Inr d'
     \<and> stage d' = Some st' \<and> width st' = 21 \<and> height st' = 27"
proof -
  let ?d = "newDungeon (defaultDungeonOptions\<lparr>multiplier := Some 3\<rparr>)"
  let ?st = "\<lparr>width = 6, height = 9, seed = None\<rparr>"
  have m: "multiplier (options ?d) = Some 3"
    by (simp add: newDungeon_def defaultDungeonOptions_def coerceMultiplier_def)
  obtain d' where v: "validate (exampleEnv []) ?st ?d = Inr d'"
    by (simp add: validate_def newDungeon_def defaultDungeonOptions_def coerceMultiplier_def Let_def)
  from validate_effective_dimensions[OF v m] show ?thesis
    using v by auto
qed

text \<open>
  The claim as stated fails for an even multiplier: a 5 by 5 stage with multiplier 2
  becomes 10 by 10.
\<close>

theorem validate_even_multiplier_counterexample:
  "\<exists>d' st'. validate (exampleEnv []) \<lparr>width = 5, height = 5, seed = Some ''s1''\<rparr>
              (newDungeon (defaultDungeonOptions\<lparr>multiplier := Some 2\<rparr>)) = Inr d'
     \<and> stage d' = Some st' \<and> width st' = 10 \<and> height st' = 10 \<and> \<not> odd (width st')"
  by (simp add: validate_def newDungeon_def defaultDungeonOptions_def coerceMultiplier_def Let_def)

section \<open>Frames of the basic steps\<close>

lemma keeps_refl [simp]: "keeps d d"
  by (simp add: keeps_def)

lemma keeps_trans: "keeps d d' \<Longrightarrow> keeps d' d'' \<Longrightarrow> keeps d d''"
  unfolding keeps_def by (metis prefix_order.order_trans)

lemma foldE_keeps:
  assumes "foldE f as d = Inr d'"
    and "\<And>a t t'. a \<in> set as \<Longrightarrow> f a t = Inr t' \<Longrightarrow> keeps t t'"
  shows "keeps d d'"
  by (rule foldE_invariant[OF assms(1), where P = "keeps d"]) (auto intro: keeps_trans assms(2))

lemma getTile_Inr: "getTile x y d = Inr r \<longleftrightarrow> tileAt (tiles d) x y = Some r"
  by (simp add: getTile_def split: option.splits)

lemma setTile_Inr:
  assumes "setTile x y ty d = Inr d'"
  shows "\<exists>r reg. tileAt (tiles d) x y = Some r \<and> region d = Some reg \<and>
     d' = d\<lparr>heap := (heap d)(r := (heap d r)
            \<lparr>tile_type := (case ty of None \<Rightarrow> Floor | Some t \<Rightarrow> t),
             tile_region := region_id reg, tile_regionType := region_type reg\<rparr>)\<rparr>"
  using assms by (auto simp: setTile_def bindE_Inr_iff getTile_Inr split: option.splits)

lemma resetTile_Inr:
  assumes "resetTile x y d = Inr d'"
  shows "\<exists>r. tileAt (tiles d) x y = Some r \<and>
     d' = d\<lparr>heap := (heap d)(r := (heap d r)
            \<lparr>tile_type := Wall, tile_region := -1, tile_regionType := None\<rparr>)\<rparr>"
  using assms by (auto simp: resetTile_def bindE_Inr_iff getTile_Inr)

lemma randBetween_keeps: "randBetween lo hi d = Inr (v, d') \<Longrightarrow> keeps d d'"
  by (drule randBetween_Inr) (auto simp: keeps_def)

lemma oneIn_keeps: "oneIn num d = Inr (b, d') \<Longrightarrow> keeps d d'"
  by (drule oneIn_Inr) (auto dest: randBetween_keeps)

lemma setTile_keeps: "setTile x y ty d = Inr d' \<Longrightarrow> keeps d d'"
  by (drule setTile_Inr) (auto simp: keeps_def)

lemma resetTile_keeps: "resetTile x y d = Inr d' \<Longrightarrow> keeps d d'"
  by (drule resetTile_Inr) (auto simp: keeps_def)

lemma markDoor_keeps: "keeps d (markDoor a d)"
  by (simp add: keeps_def markDoor_def)

lemma startRegion_keeps: "keeps d (startRegion ty d)"
  by (simp add: keeps_def startRegion_def)

lemma carveArea_keeps: "carveArea x y w h d = Inr d' \<Longrightarrow> keeps d d'"
  unfolding carveArea_def
  by (erule foldE_keeps) (erule foldE_keeps, erule setTile_keeps)

lemma heapOnly_refl [simp]: "heapOnly d d"
  by (simp add: heapOnly_def)

lemma heapOnly_trans: "heapOnly d d' \<Longrightarrow> heapOnly d' d'' \<Longrightarrow> heapOnly d d''"
  unfolding heapOnly_def by (metis Dungeon.surjective Dungeon.update_convs(8))

lemma foldE_heapOnly:
  assumes "foldE f as d = Inr d'"
    and "\<And>a t t'. a \<in> set as \<Longrightarrow> f a t = Inr t' \<Longrightarrow> heapOnly t t'"
  shows "heapOnly d d'"
  by (rule foldE_invariant[OF assms(1), where P = "heapOnly d"]) (auto intro: heapOnly_trans assms(2))

lemma setTile_heapOnly: "setTile x y ty d = Inr d' \<Longrightarrow> heapOnly d d'"
  by (drule setTile_Inr) (auto simp: heapOnly_def)

lemma resetTile_heapOnly: "resetTile x y d = Inr d' \<Longrightarrow> heapOnly d d'"
  by (drule resetTile_Inr) (auto simp: heapOnly_def)

lemma carveArea_heapOnly: "carveArea x y w h d = Inr d' \<Longrightarrow> heapOnly d d'"
  unfolding carveArea_def
  by (erule foldE_heapOnly) (erule foldE_heapOnly, erule setTile_heapOnly)

lemma heapOnly_fields:
  assumes "heapOnly d d'"
  shows "rng d' = rng d" "rooms d' = rooms d" "region d' = region d"
    "nextRegionId d' = nextRegionId d" "doorFailures d' = doorFailures d" "tiles d' = tiles d"
    "options d' = options d" "stage d' = stage d"
  using assms unfolding heapOnly_def by (metis Dungeon.select_convs Dungeon.surjective Dungeon.update_convs(8))+

lemma integer_drawn: "integer g lo hi = Inr (v, g') \<Longrightarrow> drawn g' = drawn g + 1"
  by (auto simp: integer_def split: if_splits)

lemma if_Inr_cases:
  "(if c then Inr a else m) = Inr r \<Longrightarrow> (c \<and> r = a) \<or> (\<not> c \<and> m = Inr r)"
  by (simp split: if_splits)

lemma bindE_prodE:
  assumes "bindE m (\<lambda>(a, b). f a b) = Inr r"
  obtains a b where "m = Inr (a, b)" and "f a b = Inr r"
  using assms by (cases m) auto

section \<open>Draws of a room attempt\<close>

text \<open>
  C6. Each round of the loop of \<open>addRooms\<close> that completes makes exactly five draws, in
  the order size (\<open>r1\<close>), rectangularity (\<open>r2\<close>), axis bit (\<open>r3\<close>), x (\<open>r4\<close>), y (\<open>r5\<close>),
  each with the bounds the source gives it and each from the generator the previous
  one left, whether the candidate is accepted or rejected. The candidate room is the
  one these five values give: its width and height from size, rectangularity and
  axis bit, its origin from the fourth and the fifth draw. A rejected candidate
  changes nothing but the generator (no room, no region id, no tile); an accepted one
  is appended to the rooms, mints one region id and is carved.
\<close>

theorem roomAttempt_draws:
  assumes "roomAttempt touches owl ohl d = Inr d'"
  shows "\<exists>st g r1 g1 r2 g2 r3 g3 r4 g4 r5 g5 w h x y room.
     stage d = Some st \<and> rng d = Some g \<and>
     integer g 1 (3 + roomExtraSize (options d)) = Inr (r1, g1) \<and>
     integer g1 0 (1 + (r1 * 2 + 1) div 2) = Inr (r2, g2) \<and>
     integer g2 1 2 = Inr (r3, g3) \<and>
     w = min (if r3 = 1 then r1 * 2 + 1 + r2 * 2 else r1 * 2 + 1) owl \<and>
     h = min (if r3 = 1 then r1 * 2 + 1 else r1 * 2 + 1 + r2 * 2) ohl \<and>
     integer g3 0 ((width st - w) div 2) = Inr (r4, g4) \<and>
     integer g4 0 ((height st - h) div 2) = Inr (r5, g5) \<and>
     x = (if r4 * 2 + 1 + w \<ge> width st then max 1 (width st - w - 1) else r4 * 2 + 1) \<and>
     y = (if r5 * 2 + 1 + h \<ge> height st then max 1 (height st - h - 1) else r5 * 2 + 1) \<and>
     room = \<lparr>room_x = x, room_y = y, room_width = w, room_height = h\<rparr> \<and>
     rng d' = Some g5 \<and> drawn g5 = drawn g + 5 \<and>
     ((list_ex (touches room) (rooms d) \<and> d' = d\<lparr>rng := Some g5\<rparr>)
      \<or> (\<not> list_ex (touches room) (rooms d) \<and> rooms d' = rooms d @ [room]
          \<and> nextRegionId d' = nextRegionId d + 1
          \<and> carveArea x y w h
               (startRegion RoomRegion (d\<lparr>rng := Some g5, rooms := rooms d @ [room]\<rparr>)) = Inr d'))"
proof -
  obtain st where st: "stage d = Some st"
  proof (cases "stage d")
    case None
    with assms have False unfolding roomAttempt_def by simp
    then show ?thesis ..
  next
    case (Some st)
    then show ?thesis by (rule that)
  qed
  from assms show ?thesis
    unfolding roomAttempt_def st option.case Let_def
    apply (elim bindE_prodE)
    subgoal premises p for r1 d1 r2 d2 b d3 r4 d4 r5 d5
    proof -
      note a1 = p(1) and a2 = p(2) and a3 = p(3) and a4 = p(4) and a5 = p(5) and fin = p(6)
      from a3 obtain r3 where a3': "randBetween 1 2 d2 = Inr (r3, d3)" and b: "b = (r3 = 1)"
        using oneIn_Inr by blast
      define w where "w = min (if r3 = 1 then r1 * 2 + 1 + r2 * 2 else r1 * 2 + 1) owl"
      define h where "h = min (if r3 = 1 then r1 * 2 + 1 else r1 * 2 + 1 + r2 * 2) ohl"
      define x where "x = (if r4 * 2 + 1 + w \<ge> width st then max 1 (width st - w - 1) else r4 * 2 + 1)"
      define y where "y = (if r5 * 2 + 1 + h \<ge> height st then max 1 (height st - h - 1) else r5 * 2 + 1)"
      define room where "room = \<lparr>room_x = x, room_y = y, room_width = w, room_height = h\<rparr>"
      note folds = w_def[symmetric] h_def[symmetric] x_def[symmetric] y_def[symmetric]
         room_def[symmetric]
      note a4' = a4[unfolded b, folded w_def] and a5' = a5[unfolded b, folded h_def]
      have fin': "(if list_ex (touches room) (rooms d5) then Inr d5
             else carveArea x y w h (startRegion RoomRegion (d5\<lparr>rooms := rooms d5 @ [room]\<rparr>)))
            = Inr d'"
        using fin unfolding b w_def h_def x_def y_def room_def .
      from randBetween_Inr[OF a1] obtain g g1 where
        g: "rng d = Some g" "integer g 1 (3 + roomExtraSize (options d)) = Inr (r1, g1)"
           "d1 = d\<lparr>rng := Some g1\<rparr>" by blast
      from randBetween_Inr[OF a2] g(3) obtain g2 where
        g2: "integer g1 0 (1 + (r1 * 2 + 1) div 2) = Inr (r2, g2)" "d2 = d\<lparr>rng := Some g2\<rparr>"
        by auto
      from randBetween_Inr[OF a3'] g2(2) obtain g3 where
        g3: "integer g2 1 2 = Inr (r3, g3)" "d3 = d\<lparr>rng := Some g3\<rparr>"
        by auto
      from randBetween_Inr[OF a4'] g3(2) obtain g4 where
        g4: "integer g3 0 ((width st - w) div 2) = Inr (r4, g4)" "d4 = d\<lparr>rng := Some g4\<rparr>"
        by auto
      from randBetween_Inr[OF a5'] g4(2) obtain g5 where
        g5: "integer g4 0 ((height st - h) div 2) = Inr (r5, g5)" "d5 = d\<lparr>rng := Some g5\<rparr>"
        by auto
      have cnt: "drawn g5 = drawn g + 5"
        using integer_drawn[OF g(2)] integer_drawn[OF g2(1)] integer_drawn[OF g3(1)]
          integer_drawn[OF g4(1)] integer_drawn[OF g5(1)] by simp
      have r5: "rooms d5 = rooms d" using g5(2) by simp
      have last: "rng d' = Some g5 \<and>
         ((list_ex (touches room) (rooms d) \<and> d' = d\<lparr>rng := Some g5\<rparr>)
          \<or> (\<not> list_ex (touches room) (rooms d) \<and> rooms d' = rooms d @ [room]
              \<and> nextRegionId d' = nextRegionId d + 1
              \<and> carveArea x y w h
                   (startRegion RoomRegion (d\<lparr>rng := Some g5, rooms := rooms d @ [room]\<rparr>)) = Inr d'))"
      proof (cases "list_ex (touches room) (rooms d)")
        case True
        with fin' r5 have "d' = d5" by simp
        with True g5(2) show ?thesis by simp
      next
        case False
        with fin' r5 have ca: "carveArea x y w h
            (startRegion RoomRegion (d5\<lparr>rooms := rooms d @ [room]\<rparr>)) = Inr d'" by simp
        from heapOnly_fields[OF carveArea_heapOnly[OF ca]] False ca show ?thesis
          unfolding g5(2) by (simp add: startRegion_def)
      qed
      show ?thesis
        apply (rule exI[where x = st], rule exI[where x = g])
        apply (rule exI[where x = r1], rule exI[where x = g1])
        apply (rule exI[where x = r2], rule exI[where x = g2])
        apply (rule exI[where x = r3], rule exI[where x = g3])
        apply (rule exI[where x = r4], rule exI[where x = g4])
        apply (rule exI[where x = r5], rule exI[where x = g5])
        apply (rule exI[where x = w], rule exI[where x = h])
        apply (rule exI[where x = x], rule exI[where x = y], rule exI[where x = room])
        apply (intro conjI)
                     apply (rule refl)
                    apply (rule g(1))
                   apply (rule g(2))
                  apply (rule g2(1))
                 apply (rule g3(1))
                apply (rule w_def)
               apply (rule h_def)
              apply (rule g4(1))
             apply (rule g5(1))
            apply (rule x_def)
           apply (rule y_def)
          apply (rule room_def)
         apply (rule conjunct1[OF last])
        apply (rule cnt)
        apply (rule conjunct2[OF last])
        done
    qed
    done
qed

text \<open>
  The theorem at two rounds on a fresh 5 by 5 grid whose draws give the same
  candidate twice: the first is accepted on the empty list of rooms, the second is
  rejected for touching the first.
\<close>

theorem roomAttempt_draws_witness:
  "\<exists>d d1 d2 g g1 g2.
      bindE (validate (exampleEnv [0, 0, 0, 1, 1, 0, 0, 0, 1, 1])
                \<lparr>width = 5, height = 5, seed = Some ''s1''\<rparr>
                (newDungeon defaultDungeonOptions)) (fill Wall) = Inr d
    \<and> roomAttempt touchesInflated (outerLimit 5 1) (outerLimit 5 1) d = Inr d1
    \<and> roomAttempt touchesInflated (outerLimit 5 1) (outerLimit 5 1) d1 = Inr d2
    \<and> rng d = Some g \<and> rng d1 = Some g1 \<and> rng d2 = Some g2
    \<and> drawn g1 = drawn g + 5 \<and> drawn g2 = drawn g1 + 5
    \<and> rooms d = [] \<and> rooms d1 = [\<lparr>room_x = 3, room_y = 3, room_width = 1, room_height = 1\<rparr>]
    \<and> nextRegionId d1 = nextRegionId d + 1
    \<and> d2 = d1\<lparr>rng := Some g2\<rparr>"
proof -
  let ?m = "bindE (validate (exampleEnv [0, 0, 0, 1, 1, 0, 0, 0, 1, 1])
                \<lparr>width = 5, height = 5, seed = Some ''s1''\<rparr>
                (newDungeon defaultDungeonOptions)) (fill Wall)"
  let ?room = "\<lparr>room_x = 3, room_y = 3, room_width = 1, room_height = 1\<rparr>"
  have "isOk (bindE ?m twoAttempts)" by code_simp
  then obtain d d1 d2 where d: "?m = Inr d" and t: "twoAttempts d = Inr (d1, d2)"
    by (cases ?m) (auto simp: isOk_def split: sum.splits)
  from t have c1: "roomAttempt touchesInflated (outerLimit 5 1) (outerLimit 5 1) d = Inr d1"
    and c2: "roomAttempt touchesInflated (outerLimit 5 1) (outerLimit 5 1) d1 = Inr d2"
    and e: "rooms d = []" "rooms d1 = [?room]"
    and same: "rooms d2 = rooms d1"
    by (auto simp: twoAttempts_def bindE_Inr_iff split: if_splits)
  from roomAttempt_draws[OF c1] e obtain g g1 where
    g: "rng d = Some g" "rng d1 = Some g1" "drawn g1 = drawn g + 5"
       "nextRegionId d1 = nextRegionId d + 1"
    by auto
  from roomAttempt_draws[OF c2] obtain g2 room where
    g2: "rng d2 = Some g2" "drawn g2 = drawn g1 + 5"
      "(list_ex (touchesInflated room) (rooms d1) \<and> d2 = d1\<lparr>rng := Some g2\<rparr>)
        \<or> (\<not> list_ex (touchesInflated room) (rooms d1) \<and> rooms d2 = rooms d1 @ [room])"
    using g(2) by auto
  from g2(3) same have "d2 = d1\<lparr>rng := Some g2\<rparr>" by auto
  with d c1 c2 e g g2(1,2) show ?thesis by blast
qed

section \<open>Doors\<close>

lemma doorsOnlyIn_refl [simp]: "doorsOnlyIn S d d"
  by (simp add: doorsOnlyIn_def)

lemma doorsOnlyIn_trans:
  assumes "doorsOnlyIn S d d'" and "doorsOnlyIn S d' d''"
  shows "doorsOnlyIn S d d''"
  unfolding doorsOnlyIn_def
proof
  fix a
  from assms(1) have 1: "heap d' a = heap d a \<or> (a \<in> S \<and> heap d' a = (heap d a)\<lparr>tile_type := Door\<rparr>)"
    by (simp add: doorsOnlyIn_def)
  from assms(2) have 2: "heap d'' a = heap d' a \<or> (a \<in> S \<and> heap d'' a = (heap d' a)\<lparr>tile_type := Door\<rparr>)"
    by (simp add: doorsOnlyIn_def)
  from 1 2 show "heap d'' a = heap d a \<or> (a \<in> S \<and> heap d'' a = (heap d a)\<lparr>tile_type := Door\<rparr>)"
    by auto
qed

lemma doorsOnlyIn_mono: "doorsOnlyIn S d d' \<Longrightarrow> S \<subseteq> T \<Longrightarrow> doorsOnlyIn T d d'"
  unfolding doorsOnlyIn_def by blast

lemma randBetween_heap: "randBetween lo hi d = Inr (v, d') \<Longrightarrow> heap d' = heap d \<and> doorFailures d' = doorFailures d \<and> options d' = options d"
  by (drule randBetween_Inr) auto

lemma oneIn_heap: "oneIn num d = Inr (b, d') \<Longrightarrow> heap d' = heap d \<and> doorFailures d' = doorFailures d \<and> options d' = options d"
  by (drule oneIn_Inr) (auto dest: randBetween_heap)

lemma randBetween_index:
  assumes "randBetween 0 (int (length xs) - 1) d = Inr (v, d')"
  shows "xs ! nat v \<in> set xs"
proof -
  from randBetween_range[OF assms] have "0 \<le> v" "v \<le> int (length xs) - 1" by simp_all
  then have "nat v < length xs" by linarith
  then show ?thesis by simp
qed

lemma markDoor_doorsOnlyIn: "a \<in> S \<Longrightarrow> doorsOnlyIn S d (markDoor a d)"
  by (simp add: doorsOnlyIn_def markDoor_def)

lemma doorsOnlyIn_door:
  "doorsOnlyIn S d d' \<Longrightarrow> tile_type (heap d a) = Door \<Longrightarrow> tile_type (heap d' a) = Door"
  unfolding doorsOnlyIn_def by (metis Tile.select_convs(1) Tile.surjective Tile.update_convs(1))

lemma doorsOnlyIn_heap_eq: "heap d1 = heap d \<Longrightarrow> doorsOnlyIn S d1 d' \<Longrightarrow> doorsOnlyIn S d d'"
  by (simp add: doorsOnlyIn_def)

lemma attemptsPost_step:
  assumes pre: "heap d2 = heap d" "doorFailures d2 = doorFailures d" "options d2 = options d" "keeps d d2"
    and post: "attemptsPost c added failed2 d2 res"
    and sub: "set failed2 \<subseteq> set failed \<union> set c"
  shows "attemptsPost c added failed d res"
  using post pre sub unfolding attemptsPost_def
  by (auto simp: doorsOnlyIn_def intro: keeps_trans split: prod.splits)

lemma doorAttempts_result:
  "doorAttempts c doorCount dc added i failed d = Inr res \<Longrightarrow> attemptsPost c added failed d res"
proof (induction c doorCount dc added i failed d rule: doorAttempts.induct)
  case (1 c doorCount dc added i failed d)
  show ?case
  proof (cases "added < doorCount \<and> i < dc")
    case False
    with "1.prems" have "res = (added, failed, d)"
      by (subst (asm) doorAttempts.simps) simp
    then show ?thesis by (simp add: attemptsPost_def)
  next
    case True
    with "1.prems" have run:
      "bindE (randBetween 0 (int (length c) - 1) d) (\<lambda>(rand, d1).
         bindE (oneIn dc d1) (\<lambda>(byChance, d2).
           if \<not> isCorner (heap d2) (heap d2 (c ! nat rand)) \<and> \<not> nearDoors (heap d2) (heap d2 (c ! nat rand))
              \<and> \<not> isAtEnd (heap d2) (heap d2 (c ! nat rand))
           then if byChance
                then doorAttempts c doorCount dc (added + 1) (i + 1) failed (markDoor (c ! nat rand) d2)
                else doorAttempts c doorCount dc added (i + 1) (failed @ [c ! nat rand]) d2
           else doorAttempts c doorCount dc added (i + 1) failed d2)) = Inr res"
      by (subst (asm) doorAttempts.simps) (simp add: Let_def)
    from run obtain rand d1 where r1: "randBetween 0 (int (length c) - 1) d = Inr (rand, d1)"
      and run1: "bindE (oneIn dc d1) (\<lambda>(byChance, d2).
           if \<not> isCorner (heap d2) (heap d2 (c ! nat rand)) \<and> \<not> nearDoors (heap d2) (heap d2 (c ! nat rand))
              \<and> \<not> isAtEnd (heap d2) (heap d2 (c ! nat rand))
           then if byChance
                then doorAttempts c doorCount dc (added + 1) (i + 1) failed (markDoor (c ! nat rand) d2)
                else doorAttempts c doorCount dc added (i + 1) (failed @ [c ! nat rand]) d2
           else doorAttempts c doorCount dc added (i + 1) failed d2) = Inr res"
      by (rule bindE_prodE)
    from run1 obtain byChance d2 where r2: "oneIn dc d1 = Inr (byChance, d2)"
      and run2: "(if \<not> isCorner (heap d2) (heap d2 (c ! nat rand)) \<and> \<not> nearDoors (heap d2) (heap d2 (c ! nat rand))
              \<and> \<not> isAtEnd (heap d2) (heap d2 (c ! nat rand))
           then if byChance
                then doorAttempts c doorCount dc (added + 1) (i + 1) failed (markDoor (c ! nat rand) d2)
                else doorAttempts c doorCount dc added (i + 1) (failed @ [c ! nat rand]) d2
           else doorAttempts c doorCount dc added (i + 1) failed d2) = Inr res"
      by (rule bindE_prodE)
    define door where "door = c ! nat rand"
    have door: "door \<in> set c" unfolding door_def by (rule randBetween_index[OF r1])
    have h2: "heap d2 = heap d" "doorFailures d2 = doorFailures d" "options d2 = options d"
      using randBetween_heap[OF r1] oneIn_heap[OF r2] by simp_all
    have k2: "keeps d d2"
      using randBetween_keeps[OF r1] oneIn_keeps[OF r2] by (rule keeps_trans)
    let ?ok = "\<not> isCorner (heap d2) (heap d2 door) \<and> \<not> nearDoors (heap d2) (heap d2 door)
              \<and> \<not> isAtEnd (heap d2) (heap d2 door)"
    show ?thesis
    proof (cases ?ok)
      case ok: True
      show ?thesis
      proof (cases byChance)
        case True
        from run2 have rec: "doorAttempts c doorCount dc (added + 1) (i + 1) failed (markDoor door d2) = Inr res"
          by (simp only: if_P[OF ok[unfolded door_def]] if_P[OF True] door_def)
        from "1.IH"(1)[OF \<open>added < doorCount \<and> i < dc\<close> door_def ok True rec]
        have post: "attemptsPost c (added + 1) failed (markDoor door d2) res" .
        obtain added' failed' d' where res: "res = (added', failed', d')" by (cases res)
        from post have p: "added + 1 \<le> added'" "set failed' \<subseteq> set failed \<union> set c"
          "doorFailures d' = doorFailures (markDoor door d2)" "options d' = options (markDoor door d2)"
          "doorsOnlyIn (set c) (markDoor door d2) d'" "keeps (markDoor door d2) d'"
          unfolding res attemptsPost_def by simp_all
        have "tile_type (heap (markDoor door d2) door) = Door" by (simp add: markDoor_def)
        with p(5) have isdoor: "tile_type (heap d' door) = Door" by (rule doorsOnlyIn_door)
        have "doorsOnlyIn (set c) d2 d'"
          using markDoor_doorsOnlyIn[OF door] p(5) by (rule doorsOnlyIn_trans)
        with h2(1) have dd: "doorsOnlyIn (set c) d d'" by (rule doorsOnlyIn_heap_eq)
        have kk: "keeps d d'"
          using k2 keeps_trans[OF markDoor_keeps p(6)] by (rule keeps_trans)
        show ?thesis
          unfolding res attemptsPost_def using p(1,2,3,4) h2 dd kk isdoor door
          by (auto simp: markDoor_def)
      next
        case False
        from run2 have rec: "doorAttempts c doorCount dc added (i + 1) (failed @ [door]) d2 = Inr res"
          by (simp only: if_P[OF ok[unfolded door_def]] if_not_P[OF False] door_def)
        from "1.IH"(2)[OF \<open>added < doorCount \<and> i < dc\<close> door_def ok False rec]
        have post: "attemptsPost c added (failed @ [door]) d2 res" .
        show ?thesis
          by (rule attemptsPost_step[OF h2 k2 post]) (use door in auto)
      qed
    next
      case nok: False
      from run2 have rec: "doorAttempts c doorCount dc added (i + 1) failed d2 = Inr res"
        by (simp only: if_not_P[OF nok[unfolded door_def]])
      from "1.IH"(3)[OF \<open>added < doorCount \<and> i < dc\<close> door_def nok rec]
      have post: "attemptsPost c added failed d2 res" .
      show ?thesis
        by (rule attemptsPost_step[OF h2 k2 post]) auto
    qed
  qed
qed

lemma bindE_prod3E:
  assumes "bindE m (\<lambda>(a, b, c). f a b c) = Inr r"
  obtains a b c where "m = Inr (a, b, c)" and "f a b c = Inr r"
  using assms by (cases m) auto

lemma forcedDoor_result:
  assumes "forcedDoor c failed added d = Inr (added', d')" and "set failed \<subseteq> set c" and "0 \<le> added"
  shows "0 < added' \<and> doorsOnlyIn (set c) d d' \<and> keeps d d' \<and> doorFailures d' = doorFailures d
         \<and> options d' = options d
         \<and> (if added = 0 then \<exists>a \<in> set c. tile_type (heap d' a) = Door else d' = d)"
proof (cases "added = 0")
  case False
  with assms(1) have "added' = added" "d' = d" by (simp_all add: forcedDoor_def)
  with False assms(3) show ?thesis by simp
next
  case True
  define cands where "cands = (if failed \<noteq> [] then failed else c)"
  have sub: "set cands \<subseteq> set c" using assms(2) by (simp add: cands_def)
  from assms(1) True have "bindE (randBetween 0 (int (length cands) - 1) d)
      (\<lambda>(rand, d1). Inr (added + 1, markDoor (cands ! nat rand) d1)) = Inr (added', d')"
    by (simp add: forcedDoor_def Let_def cands_def)
  then obtain rand d1 where r: "randBetween 0 (int (length cands) - 1) d = Inr (rand, d1)"
    and fin: "Inr (added + 1, markDoor (cands ! nat rand) d1) = (Inr (added', d') :: Error + int \<times> Dungeon)"
    by (rule bindE_prodE)
  from fin have a': "added' = added + 1" and d': "d' = markDoor (cands ! nat rand) d1" by simp_all
  have mem: "cands ! nat rand \<in> set c" using randBetween_index[OF r] sub by blast
  have h1: "heap d1 = heap d" "doorFailures d1 = doorFailures d" "options d1 = options d"
    using randBetween_heap[OF r] by simp_all
  have "doorsOnlyIn (set c) d1 d'" unfolding d' by (rule markDoor_doorsOnlyIn[OF mem])
  with h1(1) have dd: "doorsOnlyIn (set c) d d'" by (rule doorsOnlyIn_heap_eq)
  have kk: "keeps d d'" unfolding d'
    using randBetween_keeps[OF r] markDoor_keeps by (rule keeps_trans)
  have "tile_type (heap d' (cands ! nat rand)) = Door" unfolding d' by (simp add: markDoor_def)
  with mem have ex: "\<exists>a \<in> set c. tile_type (heap d' a) = Door" by blast
  show ?thesis
    using True a' dd kk ex h1 unfolding d' by (simp add: markDoor_def)
qed

lemma connectBucket_result:
  assumes "connectBucket c d = Inr d'"
  shows "(\<exists>a \<in> set c. tile_type (heap d' a) = Door) \<and> doorFailures d' = doorFailures d
     \<and> doorsOnlyIn (set c) d d' \<and> keeps d d' \<and> options d' = options d"
  using assms unfolding connectBucket_def
  apply -
  apply (erule bindE_prodE)
  apply (erule bindE_prod3E)
  apply (erule bindE_prodE)
  subgoal premises p for doorCount d1 added failed d2 added' d3
  proof -
    note r1 = p(1) and r2 = p(2) and r3 = p(3) and fin = p(4)
    have h1: "heap d1 = heap d" "doorFailures d1 = doorFailures d" "options d1 = options d"
      using randBetween_heap[OF r1] by simp_all
    from doorAttempts_result[OF r2] have post:
      "0 \<le> added" "set failed \<subseteq> set c" "doorFailures d2 = doorFailures d1" "options d2 = options d1"
      "doorsOnlyIn (set c) d1 d2" "keeps d1 d2"
      "0 < added \<longrightarrow> (\<exists>a \<in> set c. tile_type (heap d2 a) = Door)"
      unfolding attemptsPost_def by simp_all
    from forcedDoor_result[OF r3 post(2) post(1)] have f:
      "0 < added'" "doorsOnlyIn (set c) d2 d3" "keeps d2 d3" "doorFailures d3 = doorFailures d2"
      "options d3 = options d2"
      "if added = 0 then \<exists>a \<in> set c. tile_type (heap d3 a) = Door else d3 = d2"
      by simp_all
    from fin f(1) have d': "d' = d3" by simp
    have ex: "\<exists>a \<in> set c. tile_type (heap d3 a) = Door"
    proof (cases "added = 0")
      case True
      with f(6) show ?thesis by simp
    next
      case False
      with f(6) post(1) post(7) show ?thesis by simp
    qed
    have dd: "doorsOnlyIn (set c) d d3"
      using h1(1) doorsOnlyIn_trans[OF post(5) f(2)] by (rule doorsOnlyIn_heap_eq)
    have kk: "keeps d d3"
      using randBetween_keeps[OF r1] keeps_trans[OF post(6) f(3)] by (rule keeps_trans)
    show ?thesis
      unfolding d' using ex dd kk f(4,5) post(3,4) h1(2,3) by simp
  qed
  done

lemma foldE_connectBucket_result:
  "foldE connectBucket bs d = Inr d' \<Longrightarrow>
     doorsOnlyIn (\<Union>(set ` set bs)) d d' \<and> keeps d d' \<and> doorFailures d' = doorFailures d
     \<and> options d' = options d \<and> (\<forall>b \<in> set bs. \<exists>a \<in> set b. tile_type (heap d' a) = Door)"
proof (induction bs arbitrary: d)
  case Nil
  then show ?case by simp
next
  case (Cons b bs)
  from Cons.prems obtain d1 where b: "connectBucket b d = Inr d1" and rest: "foldE connectBucket bs d1 = Inr d'"
    by (auto simp: bindE_Inr_iff)
  note r1 = connectBucket_result[OF b] and r2 = Cons.IH[OF rest]
  from r1 obtain a where a: "a \<in> set b" "tile_type (heap d1 a) = Door" by blast
  from r2 have "doorsOnlyIn (\<Union>(set ` set bs)) d1 d'" by simp
  from doorsOnlyIn_door[OF this a(2)] a(1) have exb: "\<exists>a \<in> set b. tile_type (heap d' a) = Door" by blast
  have "doorsOnlyIn (\<Union>(set ` set (b # bs))) d d1"
    using r1 by (auto intro: doorsOnlyIn_mono)
  moreover have "doorsOnlyIn (\<Union>(set ` set (b # bs))) d1 d'"
    using r2 by (auto intro: doorsOnlyIn_mono)
  ultimately have dd: "doorsOnlyIn (\<Union>(set ` set (b # bs))) d d'" by (rule doorsOnlyIn_trans)
  have kk: "keeps d d'" using r1 r2 by (blast intro: keeps_trans)
  show ?case using dd kk exb r1 r2 by simp
qed

lemma addConnection_members:
  assumes "\<forall>b \<in> snd ` set m. \<forall>a \<in> set b. Q a" and "Q r"
  shows "\<forall>b \<in> snd ` set (addConnection key r m). \<forall>a \<in> set b. Q a"
proof (cases "map_of m key = None")
  case True
  then show ?thesis using assms by (auto simp: addConnection_def)
next
  case False
  have "\<forall>a \<in> set (snd e'). Q a"
    if "e' \<in> set (map (\<lambda>(k, v). if k = key then (k, v @ [r]) else (k, v)) m)" for e'
  proof -
    from that obtain k v where kv: "(k, v) \<in> set m"
      and e': "e' = (if k = key then (k, v @ [r]) else (k, v))"
      by auto
    from kv assms(1) have "\<forall>a \<in> set v. Q a" by force
    with assms(2) show ?thesis unfolding e' by auto
  qed
  with False show ?thesis by (auto simp: addConnection_def)
qed

lemma connectionStep_members:
  assumes "\<forall>b \<in> snd ` set m. \<forall>a \<in> set b. Q a"
    and "tile_type (heap d r) = Wall \<Longrightarrow> tile_region (heap d r) = -1 \<Longrightarrow> Q r"
  shows "\<forall>b \<in> snd ` set (connectionStep tileRegions d m r). \<forall>a \<in> set b. Q a"
proof (cases "tile_type (heap d r) \<noteq> Wall \<or> tile_region (heap d r) \<noteq> -1")
  case True
  then have "connectionStep tileRegions d m r = m" by (simp add: connectionStep_def)
  with assms(1) show ?thesis by simp
next
  case False
  then have q: "Q r" using assms(2) by simp
  show ?thesis
  proof (cases "length (tileRegions (tiles d) (heap d) r) \<le> 1")
    case True
    with False have "connectionStep tileRegions d m r = m" by (simp add: connectionStep_def)
    with assms(1) show ?thesis by simp
  next
    case gt: False
    with False have "connectionStep tileRegions d m r
        = addConnection (joinRegions (tileRegions (tiles d) (heap d) r)) r m"
      by (simp add: connectionStep_def)
    with addConnection_members[OF assms(1) q] show ?thesis by simp
  qed
qed

lemma foldl_connectionStep_members:
  assumes "\<forall>b \<in> snd ` set m. \<forall>a \<in> set b. Q a"
    and "\<forall>r \<in> set rs. tile_type (heap d r) = Wall \<and> tile_region (heap d r) = -1 \<longrightarrow> Q r"
  shows "\<forall>b \<in> snd ` set (foldl (connectionStep tileRegions d) m rs). \<forall>a \<in> set b. Q a"
  using assms
proof (induction rs arbitrary: m)
  case Nil
  from Nil.prems(1) show ?case by (simp only: foldl_Nil)
next
  case (Cons r rs)
  have 1: "\<forall>b \<in> snd ` set (connectionStep tileRegions d m r). \<forall>a \<in> set b. Q a"
    using Cons.prems(2) by (intro connectionStep_members[OF Cons.prems(1)]) simp
  have 2: "\<forall>q \<in> set rs. tile_type (heap d q) = Wall \<and> tile_region (heap d q) = -1 \<longrightarrow> Q q"
    using Cons.prems(2) by simp
  from Cons.IH[OF 1 2] show ?case by (simp only: foldl_Cons)
qed

lemma collectConnections_members:
  assumes "b \<in> snd ` set (collectConnections tileRegions d)" and "a \<in> set b"
  shows "a \<in> set (concat (tiles d)) \<and> tile_type (heap d a) = Wall \<and> tile_region (heap d a) = -1"
proof -
  have "\<forall>b \<in> snd ` set (collectConnections tileRegions d). \<forall>a \<in> set b.
      a \<in> set (concat (tiles d)) \<and> tile_type (heap d a) = Wall \<and> tile_region (heap d a) = -1"
    unfolding collectConnections_def
    by (rule foldl_connectionStep_members) simp_all
  with assms show ?thesis by blast
qed

lemma connectRegions_result:
  assumes "connectRegions tileRegions d = Inr d'"
  shows "doorsOnlyIn {a. tile_type (heap d a) = Wall \<and> tile_region (heap d a) = -1} d d'
     \<and> keeps d d' \<and> doorFailures d' = doorFailures d \<and> options d' = options d
     \<and> (\<forall>b \<in> set (map snd (collectConnections tileRegions d)). \<exists>a \<in> set b. tile_type (heap d' a) = Door)"
proof -
  note r = foldE_connectBucket_result[OF assms[unfolded connectRegions_def]]
  have "\<Union>(set ` set (map snd (collectConnections tileRegions d)))
          \<subseteq> {a. tile_type (heap d a) = Wall \<and> tile_region (heap d a) = -1}"
    using collectConnections_members[of _ tileRegions d] by auto
  with r have "doorsOnlyIn {a. tile_type (heap d a) = Wall \<and> tile_region (heap d a) = -1} d d'"
    by (blast intro: doorsOnlyIn_mono)
  with r show ?thesis by simp
qed

text \<open>
  C4. When the processing of a connector bucket completes, at least one tile of the
  bucket has type door, and the \<^verbatim>\<open>Failed to add doors\<close> message has not been written:
  the branch after the fallback is never taken.
\<close>

theorem connectBucket_adds_door:
  assumes "connectBucket connections d = Inr d'"
  shows "(\<exists>a \<in> set connections. tile_type (heap d' a) = Door) \<and> doorFailures d' = doorFailures d"
  using connectBucket_result[OF assms] by simp

theorem connectBucket_adds_door_witness:
  "\<exists>d d'. bindE (validate (exampleEnv []) \<lparr>width = 5, height = 5, seed = Some ''s1''\<rparr>
                  (newDungeon defaultDungeonOptions)) (fill Wall) = Inr d
     \<and> connectBucket [7] d = Inr d'
     \<and> tile_type (heap d 7) = Wall \<and> tile_type (heap d' 7) = Door
     \<and> doorFailures d' = doorFailures d"
proof -
  let ?m = "bindE (validate (exampleEnv []) \<lparr>width = 5, height = 5, seed = Some ''s1''\<rparr>
                  (newDungeon defaultDungeonOptions)) (fill Wall)"
  have "isOk (bindE ?m (\<lambda>d. if tile_type (heap d 7) = Wall then connectBucket [7] d else Inl TypeError))"
    by code_simp
  then obtain d d' where d: "?m = Inr d" and w: "tile_type (heap d 7) = Wall"
    and c: "connectBucket [7] d = Inr d'"
    by (cases ?m) (auto split: if_splits simp: isOk_def split: sum.splits)
  from connectBucket_adds_door[OF c] d w c show ?thesis by simp
qed

text \<open>
  C9. Given that a tile without a region has no region type (the data model's
  invariant), \<open>connectRegions\<close> leaves every tile object as it was or turns a wall
  without a region into a door by changing its type alone: the region is still \<open>-1\<close>,
  the region type is still absent, and the coordinates are the same.
\<close>

theorem connectRegions_marks_type_only:
  assumes "connectRegions tileRegions d = Inr d'"
    and "\<forall>a. tile_region (heap d a) = -1 \<longrightarrow> tile_regionType (heap d a) = None"
  shows "\<forall>a. heap d' a = heap d a \<or>
     (tile_type (heap d a) = Wall \<and> tile_type (heap d' a) = Door
      \<and> heap d' a = (heap d a)\<lparr>tile_type := Door\<rparr>
      \<and> tile_region (heap d' a) = -1 \<and> tile_regionType (heap d' a) = None
      \<and> tile_x (heap d' a) = tile_x (heap d a) \<and> tile_y (heap d' a) = tile_y (heap d a))"
proof
  fix a
  from connectRegions_result[OF assms(1)]
  have "heap d' a = heap d a \<or>
     (a \<in> {a. tile_type (heap d a) = Wall \<and> tile_region (heap d a) = -1}
       \<and> heap d' a = (heap d a)\<lparr>tile_type := Door\<rparr>)"
    unfolding doorsOnlyIn_def by blast
  then show "heap d' a = heap d a \<or>
     (tile_type (heap d a) = Wall \<and> tile_type (heap d' a) = Door
      \<and> heap d' a = (heap d a)\<lparr>tile_type := Door\<rparr>
      \<and> tile_region (heap d' a) = -1 \<and> tile_regionType (heap d' a) = None
      \<and> tile_x (heap d' a) = tile_x (heap d a) \<and> tile_y (heap d' a) = tile_y (heap d a))"
  proof
    assume "heap d' a = heap d a"
    then show ?thesis by simp
  next
    assume m: "a \<in> {a. tile_type (heap d a) = Wall \<and> tile_region (heap d a) = -1}
       \<and> heap d' a = (heap d a)\<lparr>tile_type := Door\<rparr>"
    with assms(2) have "tile_regionType (heap d a) = None" by simp
    with m show ?thesis by simp
  qed
qed

section \<open>Direction of a carve step\<close>

text \<open>
  The text of the previous direction, a plain object, is never among the texts of the
  candidates, which are arrays of two numbers: the test of \<open>windingPercent\<close> is never
  reached and the direction is always the candidate at a drawn index.
\<close>

lemma digitChar_digit: "n < 10 \<Longrightarrow> digitChar n \<in> set ''0123456789''"
  unfolding digitChar_def by (rule nth_mem) simp

lemma showNat_hd: "showNat n \<noteq> [] \<and> hd (showNat n) \<in> set ''0123456789''"
proof (induction n rule: showNat.induct)
  case (1 n)
  show ?case
  proof (cases "n < 10")
    case True
    then have "showNat n = [digitChar n]" by (subst showNat.simps) simp
    with digitChar_digit[OF True] show ?thesis by simp
  next
    case False
    then have eq: "showNat n = showNat (n div 10) @ [digitChar (n mod 10)]"
      by (subst showNat.simps) simp
    from "1.IH"[OF False] show ?thesis unfolding eq by simp
  qed
qed

lemma numberToString_hd:
  "numberToString i \<noteq> [] \<and> hd (numberToString i) \<in> set ''-0123456789''"
proof (cases "i < 0")
  case True
  then show ?thesis by (simp add: numberToString_def)
next
  case False
  with showNat_hd[of "nat i"] show ?thesis by (auto simp: numberToString_def)
qed

lemma pointArrayToString_neq_object: "pointArrayToString p \<noteq> objectToString q"
proof -
  from numberToString_hd[of "fst p"]
  have "hd (pointArrayToString p) \<in> set ''-0123456789''"
    by (simp add: pointArrayToString_def)
  moreover have "hd (objectToString q) = CHR ''[''" by (simp add: objectToString_def)
  ultimately show ?thesis by auto
qed

lemma indexOf_absent: "v \<notin> set xs \<Longrightarrow> indexOf xs v = -1"
  by (induction xs) (auto simp: Let_def)

lemma lastDirection_never_found:
  "indexOf (map pointArrayToString unmadeCells) (objectToString ld) = -1"
  by (rule indexOf_absent) (auto simp: pointArrayToString_neq_object[symmetric])

lemma chooseDirection_pickRandom:
  "chooseDirection lastDirection unmadeCells d = pickRandom unmadeCells d"
  by (cases lastDirection) (simp_all add: chooseDirection_def lastDirection_never_found)




section \<open>Region tags along the generation\<close>

lemma steps_trans: "steps d1 d2 \<Longrightarrow> steps d0 d1 \<Longrightarrow> steps d0 d2"
  by (induction rule: steps.induct) (auto intro: steps.intros)

lemma steps_trans': "steps d0 d1 \<Longrightarrow> steps d1 d2 \<Longrightarrow> steps d0 d2"
  by (rule steps_trans)

lemma randBetween_steps: "randBetween lo hi d = Inr (v, d') \<Longrightarrow> steps d d'"
  by (rule steps_draw[OF steps_refl])

lemma setTile_steps: "setTile x y ty d = Inr d' \<Longrightarrow> steps d d'"
  by (rule steps_set[OF steps_refl])

lemma resetTile_steps: "resetTile x y d = Inr d' \<Longrightarrow> steps d d'"
  by (rule steps_reset[OF steps_refl])

lemma oneIn_steps: "oneIn num d = Inr (b, d') \<Longrightarrow> steps d d'"
  by (drule oneIn_Inr) (auto dest: randBetween_steps)

lemma foldE_steps:
  assumes "foldE f as d = Inr d'"
    and "\<And>a t t'. a \<in> set as \<Longrightarrow> f a t = Inr t' \<Longrightarrow> steps t t'"
  shows "steps d d'"
  by (rule foldE_invariant[OF assms(1), where P = "steps d"])
     (auto intro: steps_trans' steps_refl assms(2))

lemma carveArea_steps: "carveArea x y w h d = Inr d' \<Longrightarrow> steps d d'"
  unfolding carveArea_def
  by (erule foldE_steps) (erule foldE_steps, erule setTile_steps)

lemma acceptRoom_steps:
  assumes "steps d d5"
    and "carveArea x y w h (startRegion ty (d5\<lparr>rooms := rooms d5 @ [room]\<rparr>)) = Inr d'"
  shows "steps d d'"
  by (rule steps_trans'[OF steps_region[OF steps_room[OF assms(1)]] carveArea_steps[OF assms(2)]])

lemma roomAttempt_steps:
  assumes "roomAttempt touches owl ohl d = Inr d'"
  shows "steps d d'"
proof -
  obtain st where st: "stage d = Some st"
  proof (cases "stage d")
    case None
    with assms have False unfolding roomAttempt_def by simp
    then show ?thesis ..
  next
    case (Some st)
    then show ?thesis by (rule that)
  qed
  from assms show ?thesis
    unfolding roomAttempt_def st option.case Let_def
    apply (elim bindE_prodE)
    subgoal premises p for r1 d1 r2 d2 b d3 r4 d4 r5 d5
    proof -
      have s5: "steps d d5"
        by (rule steps_trans'[OF steps_trans'[OF steps_trans'[OF steps_trans'[OF
              randBetween_steps[OF p(1)] randBetween_steps[OF p(2)]] oneIn_steps[OF p(3)]]
              randBetween_steps[OF p(4)]] randBetween_steps[OF p(5)]])
      from if_Inr_cases[OF p(6)] show ?thesis
      proof (elim disjE conjE)
        assume "d' = d5"
        with s5 show ?thesis by simp
      qed (erule acceptRoom_steps[OF s5])
    qed
    done
qed

lemma addRooms_steps:
  assumes "addRooms touches d = Inr d'"
  shows "steps d d'"
  using assms unfolding addRooms_def
  by (auto split: option.splits elim!: foldE_steps roomAttempt_steps)

lemma pickRandom_steps: "pickRandom unmadeCells d = Inr (p, d') \<Longrightarrow> steps d d'"
  by (auto simp: pickRandom_def bindE_Inr_iff dest: randBetween_steps)

lemma growStep_steps:
  assumes "growStep cells lastDirection d = Inr (cells', lastDirection', d')"
  shows "steps d d'"
proof -
  from assms obtain unmadeCells where u: "unmade (last cells) d = Inr unmadeCells"
    by (auto simp: growStep_def Let_def bindE_Inr_iff)
  show ?thesis
  proof (cases "unmadeCells = []")
    case True
    with assms u show ?thesis by (simp add: growStep_def Let_def steps_refl)
  next
    case False
    with assms u obtain direction d1 d2 x1 y1 x2 y2 where
        "pickRandom unmadeCells d = Inr (direction, d1)"
        "setTile x1 y1 (Some Floor) d1 = Inr d2" "setTile x2 y2 (Some Floor) d2 = Inr d'"
      by (auto simp: growStep_def Let_def bindE_Inr_iff chooseDirection_pickRandom)
    then show ?thesis
      by (blast intro: steps_trans' pickRandom_steps setTile_steps)
  qed
qed

lemma growLoop_steps:
  "growLoop count cells lastDirection d = Inr d' \<Longrightarrow> steps d d'"
proof (induction count cells lastDirection d rule: growLoop.induct)
  case (1 count cells lastDirection d)
  show ?case
  proof (cases "cells \<noteq> [] \<and> count < 500")
    case True
    with "1.prems" obtain cells1 last1 d1 where
        g: "growStep cells lastDirection d = Inr (cells1, last1, d1)"
      and r: "growLoop (count + 1) cells1 last1 d1 = Inr d'"
      by (subst (asm) growLoop.simps) (auto simp: bindE_Inr_iff)
    from "1.IH"[OF True r] growStep_steps[OF g] show ?thesis
      by (rule steps_trans)
  next
    case False
    with "1.prems" have "d' = d" by (subst (asm) growLoop.simps) auto
    then show ?thesis by (simp add: steps_refl)
  qed
qed

lemma growMaze_steps:
  assumes "growMaze x y d = Inr d'"
  shows "steps d d'"
proof (cases "tileAt (tiles d) x y")
  case None
  with assms show ?thesis by (simp add: growMaze_def)
next
  case (Some r)
  show ?thesis
  proof (cases "anyNeighborFloor (heap d) (heap d r)")
    case True
    with assms Some have "d' = d" by (simp add: growMaze_def)
    then show ?thesis by (simp add: steps_refl)
  next
    case False
    with assms Some obtain d1 where
        s: "setTile x y (Some Floor) (startRegion CorridorRegion d) = Inr d1"
      and l: "growLoop 0 [\<lparr>point_x = x, point_y = y\<rparr>] None d1 = Inr d'"
      by (auto simp: growMaze_def bindE_Inr_iff)
    from steps_set[OF steps_region[OF steps_refl] s] growLoop_steps[OF l]
    show ?thesis by (rule steps_trans')
  qed
qed

lemma growCell_steps:
  assumes "bindE (getTile x y d) (\<lambda>r.
             if tile_type (heap d r) = Floor then Inr d else growMaze x y d) = Inr d'"
  shows "steps d d'"
proof -
  from assms obtain r where
    "(if tile_type (heap d r) = Floor then Inr d else growMaze x y d) = Inr d'"
    by (auto simp: bindE_Inr_iff)
  from if_Inr_cases[OF this] show ?thesis
    by (auto simp: steps_refl intro: growMaze_steps)
qed

lemma growAll_steps: "growAll st d = Inr d' \<Longrightarrow> steps d d'"
  unfolding growAll_def
  by (erule foldE_steps) (erule foldE_steps, erule growCell_steps)

lemma deadEndStep_steps:
  assumes "deadEndStep containsTile r (b, d) = Inr (b', d')"
  shows "steps d d'"
proof -
  from assms have "d' = d \<or> (\<exists>x y. resetTile x y d = Inr d')"
    by (auto simp: deadEndStep_def Let_def bindE_Inr_iff split: if_splits)
  then show ?thesis by (auto simp: steps_refl intro: resetTile_steps)
qed

lemma cycle_steps:
  assumes "cycle containsTile d = Inr (b', d')"
  shows "steps d d'"
proof -
  have "steps d (snd (b', d'))"
  proof (rule foldE_invariant[OF assms[unfolded cycle_def], where P = "\<lambda>s. steps d (snd s)"])
    show "steps d (snd (True, d))" by (simp add: steps_refl)
  next
    fix a t t'
    assume p: "steps d (snd t)" and e: "deadEndStep containsTile a t = Inr t'"
    from e have "deadEndStep containsTile a (fst t, snd t) = Inr (fst t', snd t')" by simp
    from steps_trans'[OF p deadEndStep_steps[OF this]] show "steps d (snd t')" .
  qed
  then show ?thesis by simp
qed

lemma steps_keeps: "steps d d' \<Longrightarrow> keeps d d'"
proof (induction rule: steps.induct)
  case (steps_room d d1 room)
  then show ?case by (auto simp: keeps_def prefix_def)
qed (auto intro: keeps_trans randBetween_keeps setTile_keeps resetTile_keeps
       keeps_trans[OF _ startRegion_keeps])

lemma randBetween_tagOk:
  assumes "randBetween lo hi d = Inr (v, d')" and "tagOk d"
  shows "tagOk d'"
proof -
  from randBetween_Inr[OF assms(1)] obtain g' where "d' = d\<lparr>rng := Some g'\<rparr>" by blast
  with assms(2) show ?thesis by (simp add: tagOk_def)
qed

lemma setTile_tagOk:
  assumes "setTile x y ty d = Inr d'" and "tagOk d"
  shows "tagOk d'"
proof -
  from setTile_Inr[OF assms(1)] obtain r reg where
      reg: "region d = Some reg"
    and d': "d' = d\<lparr>heap := (heap d)(r := (heap d r)
            \<lparr>tile_type := (case ty of None \<Rightarrow> Floor | Some t \<Rightarrow> t),
             tile_region := region_id reg, tile_regionType := region_type reg\<rparr>)\<rparr>"
    by blast
  from assms(2) reg have "0 \<le> region_id reg" by (simp add: tagOk_def)
  then have "region_id reg \<noteq> -1" by simp
  with assms(2) show ?thesis unfolding d' tagOk_def by simp
qed

lemma resetTile_tagOk:
  assumes "resetTile x y d = Inr d'" and "tagOk d"
  shows "tagOk d'"
proof -
  from resetTile_Inr[OF assms(1)] obtain r where
    d': "d' = d\<lparr>heap := (heap d)(r := (heap d r)
            \<lparr>tile_type := Wall, tile_region := -1, tile_regionType := None\<rparr>)\<rparr>"
    by blast
  from assms(2) show ?thesis unfolding d' tagOk_def by simp
qed

lemma startRegion_tagOk: "tagOk d \<Longrightarrow> tagOk (startRegion ty d)"
  by (simp add: tagOk_def startRegion_def)

lemma steps_tagOk: "steps d d' \<Longrightarrow> tagOk d \<Longrightarrow> tagOk d'"
proof (induction rule: steps.induct)
  case (steps_refl d)
  then show ?case .
next
  case (steps_draw d d1 lo hi v d2)
  from randBetween_tagOk[OF steps_draw.hyps(2) steps_draw.IH[OF steps_draw.prems]]
  show ?case .
next
  case (steps_set d d1 x y ty d2)
  from setTile_tagOk[OF steps_set.hyps(2) steps_set.IH[OF steps_set.prems]]
  show ?case .
next
  case (steps_reset d d1 x y d2)
  from resetTile_tagOk[OF steps_reset.hyps(2) steps_reset.IH[OF steps_reset.prems]]
  show ?case .
next
  case (steps_region d d1 ty)
  from startRegion_tagOk[OF steps_region.IH[OF steps_region.prems]] show ?case .
next
  case (steps_room d d1 room)
  from steps_room.IH[OF steps_room.prems] show ?case by (simp add: tagOk_def)
qed

lemma newDungeon_tagOk: "tagOk (newDungeon opts)"
  by (simp add: tagOk_def newDungeon_def newTile_def)

lemma validate_tagOk:
  assumes "validate env st d = Inr d'" and "tagOk d"
  shows "tagOk d'"
proof -
  from assms(1) have "heap d' = heap d \<and> nextRegionId d' = nextRegionId d \<and> region d' = region d"
    by (auto simp: validate_def Let_def split: if_splits option.splits)
  with assms(2) show ?thesis by (simp add: tagOk_def)
qed

lemma pushTile_tagOk:
  assumes "pushTile x (newTile ty i j) d = Inr d'" and "tagOk d"
  shows "tagOk d'"
proof -
  from assms(1) have "d' = d\<lparr>heap := (heap d)(nextRef d := newTile ty i j), nextRef := nextRef d + 1,
                  tiles := (tiles d)[x := tiles d ! x @ [nextRef d]]\<rparr>"
    by (simp add: pushTile_def split: if_splits)
  with assms(2) show ?thesis by (simp add: tagOk_def newTile_def)
qed

lemma fillColumn_tagOk:
  assumes "fillColumn ty h x d = Inr d'" and "tagOk d"
  shows "tagOk d'"
proof (rule foldE_invariant[OF assms(1)[unfolded fillColumn_def], where P = tagOk])
  show "tagOk (d\<lparr>tiles := tiles d @ [[]]\<rparr>)" using assms(2) by (simp add: tagOk_def)
qed (erule (1) pushTile_tagOk[rotated])

lemma wire_tagOk:
  assumes "wire x y d = Inr d'" and "tagOk d"
  shows "tagOk d'"
proof -
  from assms(1) obtain r nb where "d' = d\<lparr>heap := (heap d)(r := (heap d r)\<lparr>tile_neighbors := nb\<rparr>)\<rparr>"
    by (auto simp: wire_def Let_def split: option.splits)
  with assms(2) show ?thesis by (simp add: tagOk_def)
qed

lemma fill_Inr:
  assumes "fill ty d = Inr d'"
  shows "\<exists>st d1. stage d = Some st
     \<and> foldE (fillColumn ty (nat (height st))) [0..<nat (width st)] d = Inr d1
     \<and> foldE (\<lambda>x. foldE (wire x) [0..<nat (height st)]) [0..<nat (width st)] d1 = Inr d'"
  using assms by (auto simp: fill_def bindE_Inr_iff split: option.splits)

lemma fill_tagOk:
  assumes "fill ty d = Inr d'" and "tagOk d"
  shows "tagOk d'"
proof -
  from fill_Inr[OF assms(1)] obtain st d1 where
      st: "stage d = Some st"
    and a: "foldE (fillColumn ty (nat (height st))) [0..<nat (width st)] d = Inr d1"
    and b: "foldE (\<lambda>x. foldE (wire x) [0..<nat (height st)]) [0..<nat (width st)] d1 = Inr d'"
    by blast
  have "tagOk d1"
    by (rule foldE_invariant[OF a, where P = tagOk, OF assms(2)]) (erule (1) fillColumn_tagOk[rotated])
  show ?thesis
  proof (rule foldE_invariant[OF b, where P = tagOk, OF \<open>tagOk d1\<close>])
    fix a t t'
    assume "tagOk t" and f: "foldE (wire a) [0..<nat (height st)] t = Inr t'"
    show "tagOk t'"
      by (rule foldE_invariant[OF f, where P = tagOk, OF \<open>tagOk t\<close>]) (erule (1) wire_tagOk[rotated])
  qed
qed

lemma prepare_tagOk:
  assumes "prepare env parts st d = Inr d'" and "tagOk d"
  shows "tagOk d'"
proof -
  from assms(1) obtain d1 d2 d3 st' where
      v: "validate env st d = Inr d1" and f: "fill Wall d1 = Inr d2"
    and a: "addRooms (parts_touches parts) d2 = Inr d3"
    and s: "stage d3 = Some st'" and g: "growAll st' d3 = Inr d'"
    by (auto simp: prepare_def bindE_Inr_iff split: option.splits)
  from steps_tagOk[OF growAll_steps[OF g] steps_tagOk[OF addRooms_steps[OF a]
         fill_tagOk[OF f validate_tagOk[OF v assms(2)]]]]
  show ?thesis .
qed

text \<open>
  The frame of \<open>connectRegions\<close> (C9) at the state \<open>build\<close> reaches on a 5 by 5 stage with
  one room: the wall tile \<open>7\<close> becomes a door and nothing else of it changes. The
  hypothesis on the region types holds there because it holds of every state that
  \<open>build\<close> hands to \<open>connectRegions\<close>.
\<close>

theorem connectRegions_marks_type_only_witness:
  "\<exists>d d'. prepare (exampleEnv []) exampleParts \<lparr>width = 5, height = 5, seed = Some ''s1''\<rparr>
              (newDungeon (defaultDungeonOptions\<lparr>roomTries := 1\<rparr>)) = Inr d
     \<and> connectRegions cardinalRegions d = Inr d'
     \<and> tile_type (heap d 7) = Wall \<and> heap d' 7 = (heap d 7)\<lparr>tile_type := Door\<rparr>
     \<and> tile_region (heap d' 7) = -1 \<and> tile_regionType (heap d' 7) = None"
proof -
  have "isOk doorExample" by code_simp
  then obtain d d' where e: "doorExample = Inr (d, d')"
    by (cases doorExample) (auto simp: isOk_def split: sum.splits)
  then have p: "prepare (exampleEnv []) exampleParts \<lparr>width = 5, height = 5, seed = Some ''s1''\<rparr>
              (newDungeon (defaultDungeonOptions\<lparr>roomTries := 1\<rparr>)) = Inr d"
    and c: "connectRegions cardinalRegions d = Inr d'"
    and t: "tile_type (heap d 7) = Wall" "tile_type (heap d' 7) = Door"
    by (auto simp: doorExample_def bindE_Inr_iff split: if_splits)
  from prepare_tagOk[OF p newDungeon_tagOk]
  have h: "\<forall>a. tile_region (heap d a) = -1 \<longrightarrow> tile_regionType (heap d a) = None"
    by (simp add: tagOk_def)
  from connectRegions_marks_type_only[OF c h] t
  have "heap d' 7 = (heap d 7)\<lparr>tile_type := Door\<rparr>
      \<and> tile_region (heap d' 7) = -1 \<and> tile_regionType (heap d' 7) = None"
    by (metis TileType.distinct(7))
  with p c t show ?thesis by blast
qed

section \<open>Rooms off the odd lattice\<close>

text \<open>
  C3. The limit that \<open>addRooms\<close> puts on the size of a room can be even
  (\<^verbatim>\<open>Math.ceil(11 * 0.5) = 6\<close>), and the clamp at the edge then gives an even origin:
  on an 11 by 5 stage the draws \<open>2, 0, 0, 2, 0\<close> make the first attempt accept the room
  at \<open>(4, 1)\<close> of width 6 and height 1, which is neither odd-sized nor at odd
  coordinates.
\<close>

theorem addRooms_even_room:
  "roomsOf [2, 0, 0, 2, 0] \<lparr>width = 11, height = 5, seed = Some ''s1''\<rparr>
      (defaultDungeonOptions\<lparr>roomTries := 1\<rparr>)
    = Inr [\<lparr>room_x = 4, room_y = 1, room_width = 6, room_height = 1\<rparr>]"
  by code_simp

end
